theory Spec2Isabelle
  imports Main
begin

section \<open>JavaScript values, exceptions and promises\<close>

text \<open>
  The values that \<^verbatim>\<open>JSON.parse\<close> can return, together with \<^verbatim>\<open>undefined\<close>.
  JSON numbers are restricted to integers: only whether a number is zero matters
  to the code modelled here.
\<close>

datatype jsval =
    JUndefined
  | JNull
  | JBool bool
  | JNum int
  | JStr string
  | JArr "jsval list"
  | JObj "(string \<times> jsval) list"

text \<open>JavaScript truthiness, as tested by \<^verbatim>\<open>!x\<close>, \<^verbatim>\<open>x || y\<close> and \<^verbatim>\<open>if (x)\<close>.\<close>

fun truthy :: "jsval \<Rightarrow> bool" where
  "truthy JUndefined = False"
| "truthy JNull = False"
| "truthy (JBool b) = b"
| "truthy (JNum n) = (n \<noteq> 0)"
| "truthy (JStr s) = (s \<noteq> [])"
| "truthy (JArr xs) = True"
| "truthy (JObj kvs) = True"

text \<open>
  A thrown value: the name and the message of the error object. The message of a TypeError
  that the engine itself throws differs between engines and is given in a short form.
\<close>

datatype exn = Exn string string

text \<open>
  Property access \<^verbatim>\<open>v.k\<close>: a TypeError on \<^verbatim>\<open>undefined\<close> and \<^verbatim>\<open>null\<close>,
  the own property of an object, and \<^verbatim>\<open>undefined\<close> for a key that a value does not have.
\<close>

fun get_prop :: "jsval \<Rightarrow> string \<Rightarrow> exn + jsval" where
  "get_prop JUndefined k = Inl (Exn ''TypeError'' ''Cannot read properties of undefined'')"
| "get_prop JNull k = Inl (Exn ''TypeError'' ''Cannot read properties of null'')"
| "get_prop (JObj kvs) k = Inr (case map_of kvs k of None \<Rightarrow> JUndefined | Some v \<Rightarrow> v)"
| "get_prop v k = Inr JUndefined"

text \<open>A settled promise.\<close>

datatype 'a promise = Fulfilled 'a | Rejected exn

text \<open>
  An \<^verbatim>\<open>async\<close> function never throws to its caller: an exception that leaves its body
  rejects the promise it returns.
\<close>

definition async :: "exn + 'a \<Rightarrow> 'a promise" where
  "async r = (case r of Inl e \<Rightarrow> Rejected e | Inr v \<Rightarrow> Fulfilled v)"

text \<open>What a call of a promise-returning method does: it returns a promise or throws.\<close>

datatype send_result = Returns "unit promise" | Throws exn

section \<open>The data of the catcher\<close>

text \<open>An \<^verbatim>\<open>Error\<close> instance: \<^verbatim>\<open>name\<close>, \<^verbatim>\<open>message\<close> and \<^verbatim>\<open>stack\<close>.\<close>

record ErrorObj =
  err_name :: string
  err_message :: string
  err_stack :: "string option"

text \<open>
  What \<^verbatim>\<open>formatAndSend\<close> is given: its declared argument type is \<^verbatim>\<open>Error | string\<close>, and
  \<^verbatim>\<open>handleEvent\<close> forwards the reason of a rejected promise, which is a value of any type.
\<close>

datatype error_or_string = ErrorInstance ErrorObj | StringReason string | OtherValue jsval

record AffectedUser =
  user_id :: string

type_synonym EventContext = "string \<rightharpoonup> jsval"

text \<open>
  An object with its own properties and its prototype: \<open>None\<close> is \<^verbatim>\<open>Object.prototype\<close>,
  the prototype of an object literal, and \<open>Some v\<close> is a prototype that was set to \<open>v\<close>.
  The values of the properties are those of \<open>jsval\<close>: an object among them is as
  \<^verbatim>\<open>JSON.parse\<close> makes it, with the prototype \<^verbatim>\<open>Object.prototype\<close> and with each of
  its keys, \<^verbatim>\<open>__proto__\<close> too, an own property.
\<close>

record PlainObject =
  own :: "string \<rightharpoonup> jsval"
  prototype :: "jsval option"

type_synonym BacktraceFrame = jsval

record VueIntegrationData =
  vue :: jsval

text \<open>
  \<^verbatim>\<open>JavaScriptAddons\<close>. An optional property is an option; \<^verbatim>\<open>RAW_EVENT_DATA\<close> may be
  absent, \<^verbatim>\<open>null\<close> or the raw data of an error. \<^verbatim>\<open>addons_vue\<close> is what
  \<^verbatim>\<open>appendIntegrationAddons\<close> adds.
\<close>

record JavaScriptAddons =
  window_innerWidth :: int
  window_innerHeight :: int
  addons_userAgent :: string
  url :: string
  addons_get :: "(string \<rightharpoonup> jsval) option"
  RAW_EVENT_DATA :: "ErrorObj option option"
  addons_vue :: "jsval option"

record EventData =
  title :: string
  event_type :: "string option"
  release :: "string option"
  event_context :: EventContext
  user :: "AffectedUser option"
  addons :: JavaScriptAddons
  backtrace :: "BacktraceFrame list option"

record CatcherMessage =
  token :: "string option"
  catcherType :: string
  payload :: EventData

text \<open>A call of \<^verbatim>\<open>log(message, type, args)\<close>.\<close>

type_synonym log_entry = "string \<times> string \<times> exn option"

datatype storage_call = GetItem string | SetItem string string

text \<open>
  What the catcher reads and writes outside itself: \<^verbatim>\<open>localStorage\<close> with the calls made
  on it, the calls of \<^verbatim>\<open>log\<close> and of \<^verbatim>\<open>console.log\<close>, the listeners added to
  \<^verbatim>\<open>window\<close> and the Vue applications handed to \<^verbatim>\<open>VueIntegration\<close>.
\<close>

record world =
  localStorage :: "string \<rightharpoonup> string"
  storage_calls :: "storage_call list"
  logs :: "log_entry list"
  console_log :: "CatcherMessage list"
  listeners :: "string list"
  vue_integrations :: "jsval list"

text \<open>The options object given to \<^verbatim>\<open>new Socket\<close>.\<close>

record SocketOptions =
  collectorEndpoint :: string
  reconnectionAttempts :: "int option"
  reconnectionTimeout :: "int option"
  onClose :: "world \<Rightarrow> world"

text \<open>
  The transport object as the catcher sees it: the options it was constructed with and the
  messages handed to its \<^verbatim>\<open>send\<close>, in order. The class \<^verbatim>\<open>Socket\<close> itself
  (\<^verbatim>\<open>./modules/socket\<close>) is not part of the sources.
\<close>

record Socket =
  options :: SocketOptions
  received :: "CatcherMessage list"

text \<open>
  \<^verbatim>\<open>HawkInitialSettings\<close>, one option per property the constructor reads.
  \<^verbatim>\<open>settings_onClose\<close> stands for a property \<^verbatim>\<open>onClose\<close> that a caller may put on the
  settings object; the constructor never reads it.

  The \<^verbatim>\<open>beforeSend\<close> callback is handed the payload, whose \<^verbatim>\<open>user\<close> property is the
  instance's own user object and not a copy. So the callback takes the payload and that
  object, and returns the object as its in-place edits leave it, beside the payload it
  returns or the exception it throws. The user object is the one object of the instance
  that the payload holds, and the callback reaches the instance through nothing else.
\<close>

record HawkInitialSettings =
  settings_token :: "string option"
  settings_debug :: "bool option"
  settings_release :: "string option"
  settings_user :: "AffectedUser option"
  settings_context :: "EventContext option"
  settings_beforeSend :: "(EventData \<Rightarrow> AffectedUser \<Rightarrow> AffectedUser \<times> (exn + EventData)) option"
  settings_collectorEndpoint :: "string option"
  settings_reconnectionAttempts :: "int option"
  settings_reconnectionTimeout :: "int option"
  settings_disableGlobalErrorsHandling :: "bool option"
  settings_vue :: "jsval option"
  settings_onClose :: "(world \<Rightarrow> world) option"

text \<open>The constructor's argument type \<^verbatim>\<open>HawkInitialSettings | string\<close>.\<close>

datatype settings_arg = SettingsString string | SettingsObject HawkInitialSettings

text \<open>The fields of a \<^verbatim>\<open>Catcher\<close> instance.\<close>

record Catcher =
  this_version :: string
  this_type :: string
  this_token :: "string option"
  this_debug :: bool
  this_release :: "string option"
  this_user :: AffectedUser
  this_context :: "EventContext option"
  this_beforeSend :: "(EventData \<Rightarrow> AffectedUser \<Rightarrow> AffectedUser \<times> (exn + EventData)) option"
  this_transport :: "Socket option"

text \<open>
  The platform and the modules that are not part of the sources, as parameters:
  \<^verbatim>\<open>atob\<close>, \<^verbatim>\<open>JSON.parse\<close>, the string conversion of a template literal, the
  \<^verbatim>\<open>toString\<close> method of a value that is neither a string nor \<^verbatim>\<open>undefined\<close> nor
  \<^verbatim>\<open>null\<close> (it may throw), \<^verbatim>\<open>generateRandomId\<close> (the id its one call returns),
  \<^verbatim>\<open>Sanitizer.sanitize\<close>, \<^verbatim>\<open>StackParser.parse\<close>, \<^verbatim>\<open>Socket.send\<close>, the properties of
  \<^verbatim>\<open>window\<close> and the global \<^verbatim>\<open>VERSION\<close>. \<^verbatim>\<open>Sanitizer.sanitize\<close>,
  \<^verbatim>\<open>StackParser.parse\<close> and \<^verbatim>\<open>Socket.send\<close> are taken not to modify the objects
  they are given, and the sanitizer to return a value that shares no object with its
  argument.
\<close>

record env =
  atob :: "string \<Rightarrow> exn + string"
  JSON_parse :: "string \<Rightarrow> exn + jsval"
  ToString :: "jsval \<Rightarrow> string"
  call_toString :: "jsval \<Rightarrow> exn + string"
  generateRandomId :: string
  sanitize :: "PlainObject \<Rightarrow> exn + EventContext"
  stackParser_parse :: "ErrorObj \<Rightarrow> exn + BacktraceFrame list"
  transport_send :: "Socket \<Rightarrow> CatcherMessage \<Rightarrow> send_result"
  innerWidth :: int
  innerHeight :: int
  userAgent :: string
  location_href :: string
  location_search :: string
  VERSION :: string

section \<open>The catcher\<close>

definition log :: "string \<Rightarrow> string \<Rightarrow> exn option \<Rightarrow> world \<Rightarrow> world" where
  "log msg level arg w = w\<lparr>logs := logs w @ [(msg, level, arg)]\<rparr>"

definition LOCAL_STORAGE_KEY :: string where
  "LOCAL_STORAGE_KEY = ''hawk-user-id''"

text \<open>\<^verbatim>\<open>if (x)\<close> on a value of type \<^verbatim>\<open>string | undefined | null\<close>.\<close>

fun truthy_string :: "string option \<Rightarrow> bool" where
  "truthy_string None = False"
| "truthy_string (Some s) = (s \<noteq> [])"

definition getGeneratedUser :: "env \<Rightarrow> world \<Rightarrow> AffectedUser \<times> world" where
  "getGeneratedUser e w =
     (let storedId = localStorage w LOCAL_STORAGE_KEY;
          w1 = w\<lparr>storage_calls := storage_calls w @ [GetItem LOCAL_STORAGE_KEY]\<rparr>
      in if truthy_string storedId
         then (\<lparr>user_id = the storedId\<rparr>, w1)
         else (let userId = generateRandomId e
               in (\<lparr>user_id = userId\<rparr>,
                   w1\<lparr>localStorage := (localStorage w1)(LOCAL_STORAGE_KEY \<mapsto> userId),
                      storage_calls := storage_calls w1 @ [SetItem LOCAL_STORAGE_KEY userId]\<rparr>)))"

text \<open>
  \<^verbatim>\<open>JSON.parse(atob(this.token))\<close>; \<^verbatim>\<open>atob(undefined)\<close> is \<^verbatim>\<open>atob\<close> of the string
  \<^verbatim>\<open>undefined\<close>.
\<close>

definition decodeToken :: "env \<Rightarrow> string option \<Rightarrow> exn + jsval" where
  "decodeToken e t =
     (case atob e (case t of None \<Rightarrow> ''undefined'' | Some s \<Rightarrow> s) of
        Inl x \<Rightarrow> Inl x
      | Inr s \<Rightarrow> JSON_parse e s)"

definition getIntegrationId :: "env \<Rightarrow> Catcher \<Rightarrow> exn + jsval" where
  "getIntegrationId e this =
     (case decodeToken e (this_token this) of
        Inl x \<Rightarrow> Inl x
      | Inr decodedIntegrationToken \<Rightarrow>
          (case get_prop decodedIntegrationToken ''integrationId'' of
             Inl x \<Rightarrow> Inl x
           | Inr integrationId \<Rightarrow>
               if \<not> truthy integrationId \<or> integrationId = JStr []
               then Inl (Exn ''Error'' ''Invalid integration token. There is no integration ID.'')
               else Inr integrationId))"

text \<open>The value of \<^verbatim>\<open>${v}\<close> in a template literal.\<close>

definition template :: "env \<Rightarrow> jsval \<Rightarrow> string" where
  "template e v = (case v of JStr s \<Rightarrow> s | _ \<Rightarrow> ToString e v)"

definition connection_lost :: "world \<Rightarrow> world" where
  "connection_lost =
     log ''Connection lost. Connection will be restored when new errors occurred'' ''info'' None"

definition initGlobalHandlers :: "world \<Rightarrow> world" where
  "initGlobalHandlers w = w\<lparr>listeners := listeners w @ [''error'', ''unhandledrejection'']\<rparr>"

definition connectVue :: "jsval \<Rightarrow> world \<Rightarrow> world" where
  "connectVue v w = w\<lparr>vue_integrations := vue_integrations w @ [v]\<rparr>"

definition settings_of :: "settings_arg \<Rightarrow> HawkInitialSettings" where
  "settings_of a =
     (case a of
        SettingsObject s \<Rightarrow> s
      | SettingsString t \<Rightarrow>
          \<lparr>settings_token = Some t, settings_debug = None, settings_release = None,
           settings_user = None, settings_context = None, settings_beforeSend = None,
           settings_collectorEndpoint = None, settings_reconnectionAttempts = None,
           settings_reconnectionTimeout = None, settings_disableGlobalErrorsHandling = None,
           settings_vue = None, settings_onClose = None\<rparr>)"

text \<open>
  The constructor returns the instance or throws; what it did to the world before throwing
  stays done, so the world is returned beside the result.
\<close>

definition constructor :: "env \<Rightarrow> settings_arg \<Rightarrow> world \<Rightarrow> (exn + Catcher) \<times> world" where
  "constructor e a w =
     (let settings = settings_of a;
          (u, w1) = (case settings_user settings of
                       Some u \<Rightarrow> (u, w)
                     | None \<Rightarrow> getGeneratedUser e w);
          this = \<lparr>this_version = VERSION e,
                  this_type = ''errors/javascript'',
                  this_token = settings_token settings,
                  this_debug = (settings_debug settings = Some True),
                  this_release = settings_release settings,
                  this_user = u,
                  this_context = settings_context settings,
                  this_beforeSend = settings_beforeSend settings,
                  this_transport = None\<rparr>
      in if \<not> truthy_string (this_token this)
         then (Inr this,
               log ''Integration Token is missed. You can get it on https://hawk.so at Project Settings.''
                   ''warn'' None w1)
         else (case (if truthy_string (settings_collectorEndpoint settings)
                     then Inr (the (settings_collectorEndpoint settings))
                     else (case getIntegrationId e this of
                             Inl x \<Rightarrow> Inl x
                           | Inr i \<Rightarrow> Inr (''wss://'' @ template e i @ ''.k1.hawk.so:443/ws''))) of
                 Inl x \<Rightarrow> (Inl x, w1)
               | Inr endpoint \<Rightarrow>
                   (let this1 = this\<lparr>this_transport := Some
                          \<lparr>options = \<lparr>collectorEndpoint = endpoint,
                                      reconnectionAttempts = settings_reconnectionAttempts settings,
                                      reconnectionTimeout = settings_reconnectionTimeout settings,
                                      onClose = connection_lost\<rparr>,
                           received = []\<rparr>\<rparr>;
                        w2 = (if settings_disableGlobalErrorsHandling settings \<noteq> Some True
                              then initGlobalHandlers w1 else w1);
                        w3 = (case settings_vue settings of
                                None \<Rightarrow> w2
                              | Some v \<Rightarrow> if truthy v then connectVue v w2 else w2)
                    in (Inr this1, w3))))"

subsection \<open>Formatting\<close>

text \<open>
  \<^verbatim>\<open>error.toString()\<close> for a value that is not an \<^verbatim>\<open>Error\<close>: a string is itself, and
  \<^verbatim>\<open>undefined\<close> and \<^verbatim>\<open>null\<close> have no method to call.
\<close>

definition getTitle :: "env \<Rightarrow> error_or_string \<Rightarrow> exn + string" where
  "getTitle e error =
     (case error of
        ErrorInstance x \<Rightarrow> Inr (err_message x)
      | StringReason s \<Rightarrow> Inr s
      | OtherValue v \<Rightarrow>
          (case v of
             JUndefined \<Rightarrow> Inl (Exn ''TypeError'' ''Cannot read properties of undefined'')
           | JNull \<Rightarrow> Inl (Exn ''TypeError'' ''Cannot read properties of null'')
           | JStr s \<Rightarrow> Inr s
           | _ \<Rightarrow> call_toString e v))"

definition getType :: "error_or_string \<Rightarrow> string option" where
  "getType error = (case error of ErrorInstance x \<Rightarrow> Some (err_name x) | _ \<Rightarrow> None)"

definition getRelease :: "Catcher \<Rightarrow> string option" where
  "getRelease this = (if truthy_string (this_release this) then this_release this else None)"

text \<open>Whether a value is an object or \<^verbatim>\<open>null\<close>: what the setter of \<^verbatim>\<open>__proto__\<close> accepts.\<close>

fun is_object_or_null :: "jsval \<Rightarrow> bool" where
  "is_object_or_null JNull = True"
| "is_object_or_null (JArr xs) = True"
| "is_object_or_null (JObj kvs) = True"
| "is_object_or_null v = False"

text \<open>
  The prototype that assigning the own properties of a source sets: the value of its own key
  \<^verbatim>\<open>__proto__\<close>, when that is an object or \<^verbatim>\<open>null\<close>.
\<close>

definition assigned_prototype :: "EventContext \<Rightarrow> jsval option" where
  "assigned_prototype s =
     (case s ''__proto__'' of
        None \<Rightarrow> None
      | Some v \<Rightarrow> if is_object_or_null v then Some v else None)"

text \<open>
  Whether an assignment under the key \<^verbatim>\<open>__proto__\<close> runs the setter of
  \<^verbatim>\<open>Object.prototype\<close>: the object has no own property of that name, and neither has its
  prototype, through which it must inherit the setter. An object that \<^verbatim>\<open>JSON.parse\<close> made
  and an array inherit it; \<^verbatim>\<open>null\<close> as a prototype ends the chain before it.
\<close>

definition setter_inherited :: "PlainObject \<Rightarrow> bool" where
  "setter_inherited t =
     (own t ''__proto__'' = None \<and>
      (case prototype t of
         None \<Rightarrow> True
       | Some (JObj kvs) \<Rightarrow> map_of kvs ''__proto__'' = None
       | Some (JArr xs) \<Rightarrow> True
       | Some v \<Rightarrow> False))"

text \<open>
  The assignment \<^verbatim>\<open>target[key] = value\<close>. Under the key \<^verbatim>\<open>__proto__\<close> it runs the
  inherited setter, which replaces the prototype of the target when the value is an object
  or \<^verbatim>\<open>null\<close> and does nothing otherwise. In every other case it makes or updates an own
  property.
\<close>

definition assign :: "PlainObject \<Rightarrow> string \<Rightarrow> jsval \<Rightarrow> PlainObject" where
  "assign t k v =
     (if k = ''__proto__'' \<and> setter_inherited t
      then (if is_object_or_null v then t\<lparr>prototype := Some v\<rparr> else t)
      else t\<lparr>own := (own t)(k \<mapsto> v)\<rparr>)"

text \<open>
  \<^verbatim>\<open>Object.assign(target, source)\<close> for a source that may be \<^verbatim>\<open>undefined\<close>: every own
  property of the source is assigned to the target. The keys other than \<^verbatim>\<open>__proto__\<close>
  become own properties whatever the prototype is, so the order of the assignments does not
  matter.
\<close>

definition Object_assign :: "PlainObject \<Rightarrow> EventContext option \<Rightarrow> PlainObject" where
  "Object_assign target source =
     (case source of
        None \<Rightarrow> target
      | Some s \<Rightarrow>
          (case s ''__proto__'' of
             None \<Rightarrow> target\<lparr>own := own target ++ s\<rparr>
           | Some v \<Rightarrow>
               assign (target\<lparr>own := own target ++ s(''__proto__'' := None)\<rparr>) ''__proto__'' v))"

definition getContext :: "env \<Rightarrow> Catcher \<Rightarrow> EventContext option \<Rightarrow> exn + EventContext" where
  "getContext e this cx =
     (let contextMerged = \<lparr>own = Map.empty, prototype = None\<rparr>;
          contextMerged = Object_assign contextMerged (this_context this);
          contextMerged = Object_assign contextMerged cx
      in sanitize e contextMerged)"

definition getUser :: "Catcher \<Rightarrow> AffectedUser option" where
  "getUser this = Some (this_user this)"

text \<open>\<^verbatim>\<open>s.split(c)\<close> for a separator of one character.\<close>

fun split :: "char \<Rightarrow> string \<Rightarrow> string list" where
  "split c [] = [[]]"
| "split c (x # xs) =
     (if x = c then [] # split c xs
      else (case split c xs of [] \<Rightarrow> [[x]] | p # ps \<Rightarrow> (x # p) # ps))"

text \<open>
  The body of the reducer: \<^verbatim>\<open>const [key, value] = pair.split('='); accumulator[key] = value\<close>.
  A missing element of the array is \<^verbatim>\<open>undefined\<close>, and \<^verbatim>\<open>undefined\<close> as a key is the
  string \<^verbatim>\<open>undefined\<close>.
\<close>

definition add_pair :: "string \<Rightarrow> PlainObject \<Rightarrow> PlainObject" where
  "add_pair pair accumulator =
     (case split CHR ''='' pair of
        [] \<Rightarrow> assign accumulator ''undefined'' JUndefined
      | [key] \<Rightarrow> assign accumulator key JUndefined
      | key # v # rest \<Rightarrow> assign accumulator key (JStr v))"

definition getGetParams :: "env \<Rightarrow> (string \<rightharpoonup> jsval) option" where
  "getGetParams e =
     (let searchString = drop 1 (location_search e)
      in if searchString = [] then None
         else Some (own (fold add_pair (split CHR ''&'' searchString)
                            \<lparr>own = Map.empty, prototype = None\<rparr>)))"

definition getRawData :: "error_or_string \<Rightarrow> ErrorObj option" where
  "getRawData error = (case error of ErrorInstance x \<Rightarrow> Some x | _ \<Rightarrow> None)"

definition getAddons :: "env \<Rightarrow> Catcher \<Rightarrow> error_or_string \<Rightarrow> JavaScriptAddons" where
  "getAddons e this error =
     \<lparr>window_innerWidth = innerWidth e,
      window_innerHeight = innerHeight e,
      addons_userAgent = userAgent e,
      url = location_href e,
      addons_get = getGetParams e,
      RAW_EVENT_DATA = (if this_debug this then Some (getRawData error) else None),
      addons_vue = None\<rparr>"

definition getBacktrace ::
  "env \<Rightarrow> error_or_string \<Rightarrow> world \<Rightarrow> BacktraceFrame list option \<times> world" where
  "getBacktrace e error w =
     (case error of
        ErrorInstance x \<Rightarrow>
          (case stackParser_parse e x of
             Inr frames \<Rightarrow> (Some frames, w)
           | Inl ex \<Rightarrow> (None, log ''Can not parse stack:'' ''warn'' (Some ex) w))
      | _ \<Rightarrow> (None, w))"

text \<open>
  The properties of the payload are evaluated in the order of the object literal, so an
  exception of \<^verbatim>\<open>toString\<close> leaves before the context is sanitized, and an exception of
  \<^verbatim>\<open>Sanitizer.sanitize\<close> before the stack is parsed. \<^verbatim>\<open>getUser\<close> returns the instance's user
  object itself, so what the \<^verbatim>\<open>beforeSend\<close> callback does to it in place is done to the
  instance, also when the callback throws afterwards.
\<close>

definition prepareErrorFormatted ::
  "env \<Rightarrow> Catcher \<Rightarrow> error_or_string \<Rightarrow> EventContext option \<Rightarrow> world
     \<Rightarrow> (exn + CatcherMessage) \<times> Catcher \<times> world" where
  "prepareErrorFormatted e this error cx w =
     (case getTitle e error of
        Inl x \<Rightarrow> (Inl x, this, w)
      | Inr t \<Rightarrow>
          (case getContext e this cx of
             Inl x \<Rightarrow> (Inl x, this, w)
           | Inr c \<Rightarrow>
               (let (b, w1) = getBacktrace e error w;
                    p = \<lparr>title = t,
                         event_type = getType error,
                         release = getRelease this,
                         event_context = c,
                         user = getUser this,
                         addons = getAddons e this error,
                         backtrace = b\<rparr>
                in case this_beforeSend this of
                     None \<Rightarrow>
                       (Inr \<lparr>token = this_token this, catcherType = this_type this, payload = p\<rparr>,
                        this, w1)
                   | Some f \<Rightarrow>
                       (case f p (this_user this) of
                          (u, Inl x) \<Rightarrow> (Inl x, this\<lparr>this_user := u\<rparr>, w1)
                        | (u, Inr p1) \<Rightarrow>
                            (Inr \<lparr>token = this_token this, catcherType = this_type this,
                                  payload = p1\<rparr>,
                             this\<lparr>this_user := u\<rparr>, w1)))))"

subsection \<open>Sending\<close>

definition appendIntegrationAddons :: "CatcherMessage \<Rightarrow> VueIntegrationData \<Rightarrow> CatcherMessage" where
  "appendIntegrationAddons errorFormatted integrationAddons =
     errorFormatted\<lparr>payload := (payload errorFormatted)
       \<lparr>addons := (addons (payload errorFormatted))\<lparr>addons_vue := Some (vue integrationAddons)\<rparr>\<rparr>\<rparr>"

text \<open>
  \<^verbatim>\<open>this.transport.send(errorFormatted).catch(...)\<close>: a TypeError when the instance has no
  transport, the exception of a \<^verbatim>\<open>send\<close> that throws, and a log entry for a promise
  that rejects.
\<close>

definition sendErrorFormatted ::
  "env \<Rightarrow> Catcher \<Rightarrow> CatcherMessage \<Rightarrow> world \<Rightarrow> (exn + unit) \<times> Catcher \<times> world" where
  "sendErrorFormatted e this errorFormatted w =
     (let w1 = w\<lparr>console_log := console_log w @ [errorFormatted]\<rparr>
      in case this_transport this of
           None \<Rightarrow> (Inl (Exn ''TypeError'' ''Cannot read properties of undefined''), this, w1)
         | Some s \<Rightarrow>
             (let this1 = this\<lparr>this_transport :=
                            Some (s\<lparr>received := received s @ [errorFormatted]\<rparr>)\<rparr>
              in case transport_send e s errorFormatted of
                   Throws x \<Rightarrow> (Inl x, this1, w1)
                 | Returns (Fulfilled v) \<Rightarrow> (Inr (), this1, w1)
                 | Returns (Rejected sendingError) \<Rightarrow>
                     (Inr (), this1, log ''WebSocket sending error'' ''error'' (Some sendingError) w1)))"

text \<open>The first argument of the \<^verbatim>\<open>log\<close> call in \<^verbatim>\<open>formatAndSend\<close>, in UTF-8.\<close>

definition Internal_error :: string where
  "Internal_error =
     ''Internal error '' @
     [CHR 0xE1, CHR 0x83, CHR 0x9A, CHR 0x28, CHR 0xC2, CHR 0xB4, CHR 0xDA, CHR 0xA1, CHR 0x60,
      CHR 0xE1, CHR 0x83, CHR 0x9A, CHR 0x29]"

text \<open>
  The body of \<^verbatim>\<open>formatAndSend\<close> with its \<^verbatim>\<open>try\<close> and \<^verbatim>\<open>catch\<close>. The effects of the
  continuation after \<^verbatim>\<open>await\<close> are counted with the call that started it.
\<close>

definition formatAndSend_body ::
  "env \<Rightarrow> Catcher \<Rightarrow> error_or_string \<Rightarrow> VueIntegrationData option \<Rightarrow> EventContext option
     \<Rightarrow> world \<Rightarrow> (exn + unit) \<times> Catcher \<times> world" where
  "formatAndSend_body e this error integrationAddons cx w =
     (case prepareErrorFormatted e this error cx w of
        (Inl formattingError, this0, w1) \<Rightarrow>
          (Inr (), this0, log Internal_error ''error'' (Some formattingError) w1)
      | (Inr errorFormatted, this0, w1) \<Rightarrow>
          (let errorFormatted1 = (case integrationAddons of
                                    None \<Rightarrow> errorFormatted
                                  | Some a \<Rightarrow> appendIntegrationAddons errorFormatted a)
           in case sendErrorFormatted e this0 errorFormatted1 w1 of
                (Inl formattingError, this1, w2) \<Rightarrow>
                  (Inr (), this1, log Internal_error ''error'' (Some formattingError) w2)
              | (Inr v, this1, w2) \<Rightarrow> (Inr (), this1, w2)))"

definition formatAndSend ::
  "env \<Rightarrow> Catcher \<Rightarrow> error_or_string \<Rightarrow> VueIntegrationData option \<Rightarrow> EventContext option
     \<Rightarrow> world \<Rightarrow> unit promise \<times> Catcher \<times> world" where
  "formatAndSend e this error integrationAddons cx w =
     (case formatAndSend_body e this error integrationAddons cx w of
        (r, this1, w1) \<Rightarrow> (async r, this1, w1))"

text \<open>
  \<^verbatim>\<open>send\<close> calls \<^verbatim>\<open>formatAndSend\<close>, drops the promise and returns \<^verbatim>\<open>undefined\<close>.
  The promise is kept beside the result, so that a rejection nobody handles can be seen.
\<close>

definition send ::
  "env \<Rightarrow> Catcher \<Rightarrow> error_or_string \<Rightarrow> EventContext option \<Rightarrow> world
     \<Rightarrow> (exn + unit) \<times> unit promise \<times> Catcher \<times> world" where
  "send e this message cx w =
     (case formatAndSend e this message None cx w of
        (p, this1, w1) \<Rightarrow> (Inr (), p, this1, w1))"

text \<open>
  \<^verbatim>\<open>handleEvent\<close>: the error of an \<^verbatim>\<open>ErrorEvent\<close> (with its message) or the reason of a
  \<^verbatim>\<open>PromiseRejectionEvent\<close>. \<^verbatim>\<open>event.error || event.reason\<close> is the error when that is
  truthy and the reason otherwise, and an event has only one of the two properties; the
  message stands in when an \<^verbatim>\<open>ErrorEvent\<close> leaves \<^verbatim>\<open>undefined\<close>. The promise of
  \<^verbatim>\<open>formatAndSend\<close> is dropped, and the promise of \<^verbatim>\<open>handleEvent\<close> is fulfilled.
\<close>

datatype window_event = ErrorEvent error_or_string string | PromiseRejectionEvent error_or_string

fun truthy_value :: "error_or_string \<Rightarrow> bool" where
  "truthy_value (ErrorInstance x) = True"
| "truthy_value (StringReason s) = (s \<noteq> [])"
| "truthy_value (OtherValue v) = truthy v"

definition handleEvent ::
  "env \<Rightarrow> Catcher \<Rightarrow> window_event \<Rightarrow> world \<Rightarrow> unit promise \<times> Catcher \<times> world" where
  "handleEvent e this event w =
     (let error = (case event of
                     ErrorEvent x m \<Rightarrow> if truthy_value x then x else OtherValue JUndefined
                   | PromiseRejectionEvent reason \<Rightarrow> reason);
          error = (case event of
                     ErrorEvent x m \<Rightarrow> if error = OtherValue JUndefined then StringReason m else error
                   | PromiseRejectionEvent reason \<Rightarrow> error)
      in case formatAndSend e this error None None w of
           (p, this1, w1) \<Rightarrow> (async (Inr ()), this1, w1))"

text \<open>
  A caller that calls \<^verbatim>\<open>send\<close> several times, each call in its own environment. Each call
  is run to its end, the continuation after \<^verbatim>\<open>await\<close> included, before the next begins: the
  calls of a caller that waits between them. Calls made without waiting may reach the
  transport in another order, which this sequence does not describe.
\<close>

fun sends ::
  "Catcher \<Rightarrow> (env \<times> error_or_string \<times> EventContext option) list \<Rightarrow> world \<Rightarrow> Catcher \<times> world" where
  "sends this [] w = (this, w)"
| "sends this ((e, message, cx) # rest) w =
     (case send e this message cx w of (r, p, this1, w1) \<Rightarrow> sends this1 rest w1)"



text \<open>
  What the instance keeps through every call: all its fields except the user object, which a
  \<^verbatim>\<open>beforeSend\<close> callback may edit in place, and the state of the transport, of which the
  options stay.
\<close>

definition configuration_kept :: "Catcher \<Rightarrow> Catcher \<Rightarrow> bool" where
  "configuration_kept a b =
     (this_version a = this_version b \<and> this_type a = this_type b \<and>
      this_token a = this_token b \<and> this_debug a = this_debug b \<and>
      this_release a = this_release b \<and> this_context a = this_context b \<and>
      this_beforeSend a = this_beforeSend b \<and>
      map_option options (this_transport a) = map_option options (this_transport b))"

section \<open>The transport core\<close>

text \<open>
  The catcher hands every message to \<^verbatim>\<open>Socket\<close>, the class of \<^verbatim>\<open>./modules/socket\<close>,
  which is not part of the sources. The reconnection controller, the outbound queue and the
  transport facade below are written from the specification of the transport core.
\<close>

subsection \<open>Reconnection controller\<close>

text \<open>
  Modelled from the spec: the retry state of the reconnection controller, which
  \<^verbatim>\<open>./modules/socket\<close> would hold. \<open>maxAttempts\<close> is an integer or infinite
  (\<open>None\<close>).
\<close>

record RetryState =
  attemptsMade :: nat
  maxAttempts :: "nat option"
  baseDelay :: nat

text \<open>Modelled from the spec: the states of the reconnection controller (section 4.2).\<close>

datatype ControllerState = Idle | Connecting | Open | Reconnecting | PermanentlyClosed

text \<open>
  Modelled from the spec: the controller of \<^verbatim>\<open>./modules/socket\<close>. Beside its state it
  counts the connections it has constructed and opened, and the calls of the owner's
  \<^verbatim>\<open>onClose\<close> observer.
\<close>

record Controller =
  state :: ControllerState
  retry :: RetryState
  connections :: nat
  notifications :: nat

text \<open>
  Modelled from the spec: what the controller reacts to. \<open>Connect\<close> is an explicit
  \<^verbatim>\<open>connect()\<close> (the first \<^verbatim>\<open>send()\<close> triggers one), \<open>OnOpen\<close> and \<open>OnClose\<close> are
  the reports of the connection (\<open>OnClose\<close> an unexpected closure or a failed attempt),
  \<open>Delay\<close> is the reconnection timer firing, \<open>Close\<close> is the caller's \<^verbatim>\<open>close()\<close>.
\<close>

datatype event = Connect | OnOpen | OnClose | Delay | Close

text \<open>Modelled from the spec: a controller as constructed, idle, with no attempt made.\<close>

definition new_controller :: "nat option \<Rightarrow> nat \<Rightarrow> Controller" where
  "new_controller m d =
     \<lparr>state = Idle, retry = \<lparr>attemptsMade = 0, maxAttempts = m, baseDelay = d\<rparr>,
      connections = 0, notifications = 0\<rparr>"

text \<open>Modelled from the spec: a new connection is constructed and opened.\<close>

definition open_connection :: "Controller \<Rightarrow> Controller" where
  "open_connection c = c\<lparr>state := Connecting, connections := connections c + 1\<rparr>"

text \<open>
  Modelled from the spec: a reconnect is needed. The controller is permanently closed if
  \<open>attemptsMade\<close> already equals \<open>maxAttempts\<close>, and waits for the delay otherwise.
\<close>

definition reconnect_needed :: "Controller \<Rightarrow> Controller" where
  "reconnect_needed c =
     (if maxAttempts (retry c) = Some (attemptsMade (retry c))
      then c\<lparr>state := PermanentlyClosed\<rparr>
      else c\<lparr>state := Reconnecting\<rparr>)"

text \<open>
  Modelled from the spec: the transitions of section 4.2. An explicit connect leaves
  \<open>Idle\<close>, and re-enters from \<open>PermanentlyClosed\<close> with the attempts reset. The report
  of an open connection resets the attempts. An unexpected closure of an open connection
  notifies the observer once and needs a reconnect; a failed attempt, the closure of a
  connection that was still connecting, needs one without a notification (the scenario of
  section 8: with three attempts allowed, the controller is permanently closed when the
  third fails). After the delay the attempts are incremented and a new connection is
  opened. \<^verbatim>\<open>close()\<close> ends in the terminal state. Every other event is ignored.
\<close>

fun step :: "event \<Rightarrow> Controller \<Rightarrow> Controller" where
  "step Connect c =
     (if state c = Idle then open_connection c
      else if state c = PermanentlyClosed
      then open_connection (c\<lparr>retry := (retry c)\<lparr>attemptsMade := 0\<rparr>\<rparr>)
      else c)"
| "step OnOpen c =
     (if state c = Connecting
      then c\<lparr>state := Open, retry := (retry c)\<lparr>attemptsMade := 0\<rparr>\<rparr>
      else c)"
| "step OnClose c =
     (if state c = Open then reconnect_needed (c\<lparr>notifications := notifications c + 1\<rparr>)
      else if state c = Connecting then reconnect_needed c
      else c)"
| "step Delay c =
     (if state c = Reconnecting
      then open_connection (c\<lparr>retry := (retry c)\<lparr>attemptsMade := attemptsMade (retry c) + 1\<rparr>\<rparr>)
      else c)"
| "step Close c = c\<lparr>state := PermanentlyClosed\<rparr>"

text \<open>The controller after a sequence of events.\<close>

fun run :: "event list \<Rightarrow> Controller \<Rightarrow> Controller" where
  "run [] c = c"
| "run (ev # evs) c = run evs (step ev c)"

text \<open>One failed reconnection attempt: the delay passes, the connection opened then fails.\<close>

definition failed_attempts :: "nat \<Rightarrow> event list" where
  "failed_attempts k = concat (replicate k [Delay, OnClose])"

text \<open>
  What holds of the controller in every state it reaches: the attempts made do not exceed a
  finite maximum, they are below it while the controller waits to reconnect, and they are
  zero while the connection is open.
\<close>

definition retry_ok :: "Controller \<Rightarrow> bool" where
  "retry_ok c =
     (case maxAttempts (retry c) of
        None \<Rightarrow> state c \<noteq> Open \<or> attemptsMade (retry c) = 0
      | Some n \<Rightarrow>
          attemptsMade (retry c) \<le> n \<and>
          (state c \<noteq> Reconnecting \<or> attemptsMade (retry c) < n) \<and>
          (state c \<noteq> Open \<or> attemptsMade (retry c) = 0))"

subsection \<open>Outbound queue and transport facade\<close>

text \<open>
  Modelled from the spec: an outbound message of \<^verbatim>\<open>./modules/socket\<close>, an opaque payload
  with the sequence number assigned when it is enqueued.
\<close>

record 'p OutboundMessage =
  message_payload :: 'p
  sequence_number :: nat

text \<open>
  Modelled from the spec: the transport facade with the controller and the outbound queue it
  owns. \<open>maximum\<close> is the configured maximum of the queue, if any; \<open>wire\<close> holds the
  payloads delivered to the underlying channel, in order.
\<close>

record 'p Facade =
  controller :: Controller
  queue :: "'p OutboundMessage list"
  next_sequence :: nat
  maximum :: "nat option"
  wire :: "'p list"

text \<open>Modelled from the spec: a facade as constructed.\<close>

definition new_facade :: "nat option \<Rightarrow> nat \<Rightarrow> nat option \<Rightarrow> 'p Facade" where
  "new_facade m d n =
     \<lparr>controller = new_controller m d, queue = [], next_sequence = 0, maximum = n, wire = []\<rparr>"

text \<open>
  Modelled from the spec: \<^verbatim>\<open>enqueue\<close> always succeeds. The message gets the next sequence
  number and goes to the end of the queue; with a configured maximum, the oldest entries are
  dropped on overflow.
\<close>

definition enqueue :: "'p \<Rightarrow> 'p Facade \<Rightarrow> 'p Facade" where
  "enqueue m f =
     (let q = queue f @ [\<lparr>message_payload = m, sequence_number = next_sequence f\<rparr>]
      in f\<lparr>queue := (case maximum f of None \<Rightarrow> q | Some n \<Rightarrow> drop (length q - n) q),
           next_sequence := next_sequence f + 1\<rparr>)"

text \<open>
  Modelled from the spec: \<^verbatim>\<open>send\<close> of the facade. When the connection is open it attempts
  the delivery at once (\<open>ok\<close> tells whether the channel takes the message) and falls back
  to the queue on failure. Otherwise it enqueues, and triggers \<^verbatim>\<open>connect()\<close> if the
  controller is idle.
\<close>

definition facade_send :: "bool \<Rightarrow> 'p \<Rightarrow> 'p Facade \<Rightarrow> 'p Facade" where
  "facade_send ok m f =
     (if state (controller f) = Open
      then (if ok then f\<lparr>wire := wire f @ [m]\<rparr> else enqueue m f)
      else (let f1 = enqueue m f
            in if state (controller f1) = Idle
               then f1\<lparr>controller := step Connect (controller f1)\<rparr>
               else f1))"

text \<open>
  Modelled from the spec: \<^verbatim>\<open>drain\<close>. The entries leave the queue from the front, one
  \<^verbatim>\<open>connection.send()\<close> each; the list of booleans tells which attempts the channel takes,
  and an exhausted list is a channel that is no longer open. Draining stops at the first
  failure and leaves that entry and the rest queued.
\<close>

fun drain :: "bool list \<Rightarrow> 'p OutboundMessage list \<Rightarrow> 'p list \<Rightarrow> 'p OutboundMessage list \<times> 'p list" where
  "drain oks [] w = ([], w)"
| "drain [] (m # q) w = (m # q, w)"
| "drain (ok # oks) (m # q) w =
     (if ok then drain oks q (w @ [message_payload m]) else (m # q, w))"

text \<open>
  Modelled from the spec: the connection reports that it is open. The facade drains the
  queue exactly once per transition into \<open>Open\<close>.
\<close>

definition facade_on_open :: "bool list \<Rightarrow> 'p Facade \<Rightarrow> 'p Facade" where
  "facade_on_open oks f =
     (let c = step OnOpen (controller f)
      in if state c = Open \<and> state (controller f) \<noteq> Open
         then (case drain oks (queue f) (wire f) of
                 (q, w) \<Rightarrow> f\<lparr>controller := c, queue := q, wire := w\<rparr>)
         else f\<lparr>controller := c\<rparr>)"

text \<open>A caller that submits several messages, one \<^verbatim>\<open>send\<close> each.\<close>

fun submit :: "(bool \<times> 'p) list \<Rightarrow> 'p Facade \<Rightarrow> 'p Facade" where
  "submit [] f = f"
| "submit ((ok, m) # ms) f = submit ms (facade_send ok m f)"

text \<open>The overflow policy of \<open>enqueue\<close> on a list: with a maximum, the newest entries stay.\<close>

definition trim :: "nat option \<Rightarrow> 'a list \<Rightarrow> 'a list" where
  "trim n q = (case n of None \<Rightarrow> q | Some k \<Rightarrow> drop (length q - k) q)"

text \<open>The entries that successive calls of \<open>enqueue\<close> make of a list of payloads.\<close>

fun stamp :: "nat \<Rightarrow> 'p list \<Rightarrow> 'p OutboundMessage list" where
  "stamp s [] = []"
| "stamp s (m # ms) = \<lparr>message_payload = m, sequence_number = s\<rparr> # stamp (Suc s) ms"

text \<open>
  What holds of the queue of a facade: the sequence numbers ascend strictly, they are below
  the next one to be assigned, and the queue is within its maximum.
\<close>

definition queue_ok :: "'p Facade \<Rightarrow> bool" where
  "queue_ok f =
     (sorted_wrt (<) (map sequence_number (queue f)) \<and>
      list_all (\<lambda>m. sequence_number m < next_sequence f) (queue f) \<and>
      (case maximum f of None \<Rightarrow> True | Some n \<Rightarrow> length (queue f) \<le> n))"

section \<open>Concrete inputs\<close>

text \<open>
  An environment in which the token \<^verbatim>\<open>good\<close> decodes to an object with the integration id
  \<^verbatim>\<open>abc\<close> and the token \<^verbatim>\<open>noid\<close> to an object without one, the parser fails on an
  error without a stack, and the transport rejects the message titled \<^verbatim>\<open>reject\<close> and
  throws on the message titled \<^verbatim>\<open>throw\<close>.
\<close>

definition example_env :: env where
  "example_env =
     \<lparr>atob = (\<lambda>s. Inr s),
      JSON_parse = (\<lambda>s. if s = ''good''
                        then Inr (JObj [(''integrationId'', JStr ''abc''), (''secret'', JStr ''s'')])
                        else if s = ''noid'' then Inr (JObj [(''secret'', JStr ''s'')])
                        else Inl (Exn ''SyntaxError'' ''Unexpected token'')),
      ToString = (\<lambda>v. ''[object Object]''),
      call_toString = (\<lambda>v. Inr ''[object Object]''),
      generateRandomId = ''r4nd0m'',
      sanitize = (\<lambda>c. Inr (own c)),
      stackParser_parse = (\<lambda>x. if err_stack x = None then Inl (Exn ''Error'' ''no stack'')
                               else Inr []),
      transport_send = (\<lambda>s m. if title (payload m) = ''reject''
                               then Returns (Rejected (Exn ''Error'' ''closed''))
                               else if title (payload m) = ''throw''
                               then Throws (Exn ''Error'' ''not open'')
                               else Returns (Fulfilled ())),
      innerWidth = 800, innerHeight = 600, userAgent = ''UA'',
      location_href = ''https://example.org/?a=1'', location_search = ''?a=1'',
      VERSION = ''3.0.0''\<rparr>"

definition example_world :: world where
  "example_world =
     \<lparr>localStorage = Map.empty, storage_calls = [], logs = [], console_log = [],
      listeners = [], vue_integrations = []\<rparr>"

definition example_settings :: HawkInitialSettings where
  "example_settings =
     \<lparr>settings_token = Some ''good'', settings_debug = None, settings_release = Some ''1.2'',
      settings_user = Some \<lparr>user_id = ''u1''\<rparr>,
      settings_context = Some [''app'' \<mapsto> JStr ''shop'', ''env'' \<mapsto> JStr ''prod''],
      settings_beforeSend = None,
      settings_collectorEndpoint = None, settings_reconnectionAttempts = Some 3,
      settings_reconnectionTimeout = Some 1000, settings_disableGlobalErrorsHandling = None,
      settings_vue = None, settings_onClose = None\<rparr>"

text \<open>The instance that the constructor builds from \<open>example_settings\<close>.\<close>

definition example_catcher :: Catcher where
  "example_catcher =
     \<lparr>this_version = ''3.0.0'', this_type = ''errors/javascript'', this_token = Some ''good'',
      this_debug = False, this_release = Some ''1.2'', this_user = \<lparr>user_id = ''u1''\<rparr>,
      this_context = Some [''app'' \<mapsto> JStr ''shop'', ''env'' \<mapsto> JStr ''prod''],
      this_beforeSend = None,
      this_transport = Some \<lparr>options = \<lparr>collectorEndpoint = ''wss://abc.k1.hawk.so:443/ws'',
                                             reconnectionAttempts = Some 3,
                                             reconnectionTimeout = Some 1000,
                                             onClose = connection_lost\<rparr>,
                                  received = []\<rparr>\<rparr>"

text \<open>A \<^verbatim>\<open>beforeSend\<close> callback that replaces the title of every event.\<close>

definition redact_title :: "EventData \<Rightarrow> AffectedUser \<Rightarrow> AffectedUser \<times> (exn + EventData)" where
  "redact_title p u = (u, Inr (p\<lparr>title := ''[filtered]''\<rparr>))"

text \<open>A callback that a caller could put on the settings object under the name \<^verbatim>\<open>onClose\<close>.\<close>

definition user_onClose :: "world \<Rightarrow> world" where
  "user_onClose = log ''closed'' ''debug'' None"




section \<open>Properties of the catcher\<close>

lemmas catcher_defs =
  constructor_def settings_of_def getGeneratedUser_def getIntegrationId_def decodeToken_def
  template_def prepareErrorFormatted_def getContext_def Object_assign_def assign_def
  setter_inherited_def assigned_prototype_def getBacktrace_def
  getTitle_def getType_def getRelease_def getUser_def getAddons_def getGetParams_def
  getRawData_def add_pair_def sendErrorFormatted_def formatAndSend_body_def formatAndSend_def
  send_def appendIntegrationAddons_def async_def log_def LOCAL_STORAGE_KEY_def
  initGlobalHandlers_def connectVue_def Let_def

lemmas example_defs = example_env_def example_world_def example_settings_def example_catcher_def


lemma example_constructed:
  "constructor example_env (SettingsObject example_settings) example_world =
     (Inr example_catcher, initGlobalHandlers example_world)"
  by (simp add: constructor_def example_env_def example_settings_def example_catcher_def
        settings_of_def getIntegrationId_def decodeToken_def template_def)

subsection \<open>What a call of send leaves unchanged\<close>

lemma configuration_kept_refl: "configuration_kept this this"
  by (simp add: configuration_kept_def)

lemma configuration_kept_trans:
  "configuration_kept a b \<Longrightarrow> configuration_kept b c \<Longrightarrow> configuration_kept a c"
  by (simp add: configuration_kept_def)

lemma sendErrorFormatted_fields:
  "sendErrorFormatted e this m w = (r, this1, w1) \<Longrightarrow>
     configuration_kept this1 this \<and> this_user this1 = this_user this"
  by (auto simp: sendErrorFormatted_def configuration_kept_def Let_def
           split: option.splits send_result.splits promise.splits)

lemma prepareErrorFormatted_fields:
  "prepareErrorFormatted e this error cx w = (r, this0, w1) \<Longrightarrow>
     configuration_kept this0 this \<and> this_transport this0 = this_transport this"
  by (auto simp: prepareErrorFormatted_def configuration_kept_def Let_def
           split: prod.splits sum.splits option.splits)

lemma formatAndSend_fields:
  assumes "formatAndSend e this error ia cx w = (p, this1, w1)"
  shows "configuration_kept this1 this"
proof -
  obtain r this0 w0 where f: "prepareErrorFormatted e this error cx w = (r, this0, w0)"
    by (cases "prepareErrorFormatted e this error cx w")
  from prepareErrorFormatted_fields [OF f] have k: "configuration_kept this0 this"
    by simp
  show ?thesis
  proof (cases r)
    case (Inl x)
    with assms f k show ?thesis
      by (simp add: formatAndSend_def formatAndSend_body_def)
  next
    case (Inr m)
    define m1 where "m1 = (case ia of None \<Rightarrow> m | Some a \<Rightarrow> appendIntegrationAddons m a)"
    obtain r2 this2 w2 where s: "sendErrorFormatted e this0 m1 w0 = (r2, this2, w2)"
      by (cases "sendErrorFormatted e this0 m1 w0")
    from assms f Inr s have "this1 = this2"
      by (cases r2) (simp_all add: formatAndSend_def formatAndSend_body_def m1_def [symmetric])
    with sendErrorFormatted_fields [OF s] k show ?thesis
      by (auto intro: configuration_kept_trans)
  qed
qed

lemma send_fields:
  "send e this message cx w = (r, p, this1, w1) \<Longrightarrow> configuration_kept this1 this"
  by (auto simp: send_def split: prod.splits dest: formatAndSend_fields)

lemma sends_fields:
  "sends this ms w = (this1, w1) \<Longrightarrow> configuration_kept this1 this"
proof (induction ms arbitrary: this w)
  case Nil
  then show ?case by (simp add: configuration_kept_refl)
next
  case (Cons a ms)
  obtain e message cx where a: "a = (e, message, cx)"
    by (cases a)
  obtain r p this2 w2 where s: "send e this message cx w = (r, p, this2, w2)"
    by (cases "send e this message cx w")
  from Cons.prems a s have "sends this2 ms w2 = (this1, w1)"
    by simp
  from Cons.IH [OF this] send_fields [OF s] show ?case
    by (rule configuration_kept_trans)
qed

subsection \<open>The envelope of a message\<close>





subsection \<open>The context of an event\<close>



lemma map_add_without_key: "m ++ n(k := None) = (if n k = None then m ++ n else (m ++ n)(k := m k))"
  by (rule ext) (auto simp: map_add_def split: option.splits)













subsection \<open>Title, type and backtrace\<close>

text \<open>
  Claim C8, amended. The payload that formatting builds is the formatted event when no
  \<^verbatim>\<open>beforeSend\<close> callback is configured, and the argument of the callback otherwise. For a
  string its title is the string, its type is \<^verbatim>\<open>null\<close> and its backtrace is \<^verbatim>\<open>null\<close>;
  for an \<^verbatim>\<open>Error\<close> its title is the message and its type is the name of the error. With a
  callback, the formatted event is what the callback returns. For a value of another type
  that \<^verbatim>\<open>handleEvent\<close> forwards, the title is what its \<^verbatim>\<open>toString\<close> returns, and the type
  and the backtrace are \<^verbatim>\<open>null\<close>.
\<close>

theorem formatted_fields:
  assumes "prepareErrorFormatted e this error cx w = (Inr m, this1, w1)"
  shows "\<exists>p. (case this_beforeSend this of
                None \<Rightarrow> payload m = p
              | Some f \<Rightarrow> snd (f p (this_user this)) = Inr (payload m)) \<and>
             (case error of
                StringReason s \<Rightarrow> title p = s \<and> event_type p = None \<and> backtrace p = None
              | ErrorInstance x \<Rightarrow> title p = err_message x \<and> event_type p = Some (err_name x)
              | OtherValue v \<Rightarrow>
                  getTitle e error = Inr (title p) \<and> event_type p = None \<and> backtrace p = None)"
proof -
  obtain t where t: "getTitle e error = Inr t"
    using assms by (cases "getTitle e error") (simp_all add: prepareErrorFormatted_def)
  obtain c where c: "getContext e this cx = Inr c"
    using assms t by (cases "getContext e this cx") (simp_all add: prepareErrorFormatted_def)
  let ?p = "\<lparr>title = t, event_type = getType error, release = getRelease this,
             event_context = c, user = getUser this, addons = getAddons e this error,
             backtrace = fst (getBacktrace e error w)\<rparr>"
  have 1: "case this_beforeSend this of
             None \<Rightarrow> payload m = ?p
           | Some f \<Rightarrow> snd (f ?p (this_user this)) = Inr (payload m)"
    using assms t c
    by (auto simp: prepareErrorFormatted_def Let_def split: prod.splits sum.splits option.splits)
  have 2: "case error of
             StringReason s \<Rightarrow> title ?p = s \<and> event_type ?p = None \<and> backtrace ?p = None
           | ErrorInstance x \<Rightarrow> title ?p = err_message x \<and> event_type ?p = Some (err_name x)
           | OtherValue v \<Rightarrow>
               getTitle e error = Inr (title ?p) \<and> event_type ?p = None \<and> backtrace ?p = None"
    using t by (cases error) (simp_all add: getTitle_def getType_def getBacktrace_def)
  from 1 2 show ?thesis
    by blast
qed

theorem formatted_fields_witness:
  "title (payload (projr (fst (prepareErrorFormatted example_env example_catcher
      (StringReason ''boom'') None example_world)))) = ''boom'' \<and>
   event_type (payload (projr (fst (prepareErrorFormatted example_env example_catcher
      (StringReason ''boom'') None example_world)))) = None \<and>
   backtrace (payload (projr (fst (prepareErrorFormatted example_env example_catcher
      (StringReason ''boom'') None example_world)))) = None"
proof -
  let ?r = "prepareErrorFormatted example_env example_catcher (StringReason ''boom'') None
              example_world"
  have "\<not> isl (fst ?r)"
    by (simp add: catcher_defs example_defs)
  then have "?r = (Inr (projr (fst ?r)), fst (snd ?r), snd (snd ?r))"
    by (cases "fst ?r") (simp_all add: prod_eq_iff)
  from formatted_fields [OF this] show ?thesis
    by (simp add: example_catcher_def)
qed

text \<open>
  The claim as it is written fails when a \<^verbatim>\<open>beforeSend\<close> callback rewrites the title:
  the formatted event of the string \<^verbatim>\<open>boom\<close> has the title that the callback chose.
\<close>

theorem formatted_fields_counterexample:
  "\<not> isl (fst (prepareErrorFormatted example_env
       (example_catcher\<lparr>this_beforeSend := Some redact_title\<rparr>)
       (StringReason ''boom'') None example_world)) \<and>
   title (payload (projr (fst (prepareErrorFormatted example_env
       (example_catcher\<lparr>this_beforeSend := Some redact_title\<rparr>)
       (StringReason ''boom'') None example_world)))) = ''[filtered]''"
  by (simp add: catcher_defs example_defs redact_title_def)

subsection \<open>The generated user\<close>

lemma getGeneratedUser_stored:
  "truthy_string (localStorage w LOCAL_STORAGE_KEY) \<Longrightarrow>
     getGeneratedUser e w =
       (\<lparr>user_id = the (localStorage w LOCAL_STORAGE_KEY)\<rparr>,
        w\<lparr>storage_calls := storage_calls w @ [GetItem LOCAL_STORAGE_KEY]\<rparr>)"
  by (simp add: getGeneratedUser_def Let_def)

lemma getGeneratedUser_fresh:
  "\<not> truthy_string (localStorage w LOCAL_STORAGE_KEY) \<Longrightarrow>
     getGeneratedUser e w =
       (\<lparr>user_id = generateRandomId e\<rparr>,
        w\<lparr>localStorage := (localStorage w)(LOCAL_STORAGE_KEY \<mapsto> generateRandomId e),
          storage_calls := storage_calls w @
            [GetItem LOCAL_STORAGE_KEY, SetItem LOCAL_STORAGE_KEY (generateRandomId e)]\<rparr>)"
  by (simp add: getGeneratedUser_def Let_def)

lemma constructor_storage:
  "storage_calls (snd (constructor e a w)) =
     (case settings_user (settings_of a) of
        Some u \<Rightarrow> storage_calls w
      | None \<Rightarrow> storage_calls (snd (getGeneratedUser e w))) \<and>
   localStorage (snd (constructor e a w)) =
     (case settings_user (settings_of a) of
        Some u \<Rightarrow> localStorage w
      | None \<Rightarrow> localStorage (snd (getGeneratedUser e w)))"
  by (simp add: constructor_def Let_def log_def initGlobalHandlers_def connectVue_def
           split: prod.splits option.splits sum.splits)

lemma constructor_user:
  "fst (constructor e a w) = Inr this \<Longrightarrow>
     this_user this =
       (case settings_user (settings_of a) of
          Some u \<Rightarrow> u
        | None \<Rightarrow> fst (getGeneratedUser e w))"
  by (auto simp: constructor_def Let_def split: prod.splits option.splits sum.splits if_splits)

text \<open>
  Claim C6, amended. When the settings provide a user, the constructor neither reads nor
  writes \<^verbatim>\<open>localStorage\<close>. When they provide none, it reads the key \<^verbatim>\<open>hawk-user-id\<close>
  exactly once. If a non-empty id is stored there, that id becomes the user's id and nothing
  is written. If nothing is stored, or the stored value is the empty string, the generated id
  is written under the key exactly once and becomes the user's id.
\<close>

theorem generated_user:
  "(case settings_user (settings_of a) of
      Some u \<Rightarrow>
        storage_calls (snd (constructor e a w)) = storage_calls w \<and>
        localStorage (snd (constructor e a w)) = localStorage w
    | None \<Rightarrow>
        storage_calls (snd (constructor e a w)) =
          storage_calls w @
            (if truthy_string (localStorage w LOCAL_STORAGE_KEY)
             then [GetItem LOCAL_STORAGE_KEY]
             else [GetItem LOCAL_STORAGE_KEY, SetItem LOCAL_STORAGE_KEY (generateRandomId e)]) \<and>
        localStorage (snd (constructor e a w)) =
          (if truthy_string (localStorage w LOCAL_STORAGE_KEY)
           then localStorage w
           else (localStorage w)(LOCAL_STORAGE_KEY \<mapsto> generateRandomId e)) \<and>
        (\<forall>this. fst (constructor e a w) = Inr this \<longrightarrow>
           user_id (this_user this) =
             (if truthy_string (localStorage w LOCAL_STORAGE_KEY)
              then the (localStorage w LOCAL_STORAGE_KEY)
              else generateRandomId e)))"
proof (cases "settings_user (settings_of a)")
  case None
  show ?thesis
  proof (cases "truthy_string (localStorage w LOCAL_STORAGE_KEY)")
    case True
    with None constructor_storage [of e a w] constructor_user [of e a w]
      getGeneratedUser_stored [OF True, of e]
    show ?thesis by simp
  next
    case False
    with None constructor_storage [of e a w] constructor_user [of e a w]
      getGeneratedUser_fresh [OF False, of e]
    show ?thesis by simp
  qed
next
  case (Some u)
  with constructor_storage [of e a w] show ?thesis by simp
qed

theorem generated_user_witness:
  "storage_calls (snd (constructor example_env (SettingsString ''good'')
      (example_world\<lparr>localStorage := [''hawk-user-id'' \<mapsto> ''stored1'']\<rparr>))) =
     [GetItem ''hawk-user-id''] \<and>
   localStorage (snd (constructor example_env (SettingsString ''good'')
      (example_world\<lparr>localStorage := [''hawk-user-id'' \<mapsto> ''stored1'']\<rparr>))) =
     [''hawk-user-id'' \<mapsto> ''stored1''] \<and>
   user_id (this_user (projr (fst (constructor example_env (SettingsString ''good'')
      (example_world\<lparr>localStorage := [''hawk-user-id'' \<mapsto> ''stored1'']\<rparr>))))) = ''stored1'' \<and>
   storage_calls (snd (constructor example_env (SettingsString ''good'') example_world)) =
     [GetItem ''hawk-user-id'', SetItem ''hawk-user-id'' ''r4nd0m''] \<and>
   storage_calls (snd (constructor example_env (SettingsObject example_settings) example_world)) =
     []"
proof -
  let ?w = "example_world\<lparr>localStorage := [''hawk-user-id'' \<mapsto> ''stored1'']\<rparr>"
  let ?c = "constructor example_env (SettingsString ''good'') ?w"
  have "\<not> isl (fst ?c)"
    by (simp add: catcher_defs example_defs)
  then have "fst ?c = Inr (projr (fst ?c))"
    by (cases "fst ?c") simp_all
  with generated_user [where a = "SettingsString ''good''" and e = example_env and w = ?w]
    generated_user [where a = "SettingsString ''good''" and e = example_env and w = example_world]
    generated_user [where a = "SettingsObject example_settings" and e = example_env
      and w = example_world]
  show ?thesis
    by (simp add: settings_of_def LOCAL_STORAGE_KEY_def example_world_def example_settings_def
          example_env_def)
qed

text \<open>
  The claim as it is written fails when the empty string is stored under the key: a stored
  value exists, yet the constructor writes the generated id over it and uses that.
\<close>

theorem generated_user_counterexample:
  "localStorage (example_world\<lparr>localStorage := [''hawk-user-id'' \<mapsto> []]\<rparr>) ''hawk-user-id'' =
     Some [] \<and>
   storage_calls (snd (constructor example_env (SettingsString ''good'')
      (example_world\<lparr>localStorage := [''hawk-user-id'' \<mapsto> []]\<rparr>))) =
     [GetItem ''hawk-user-id'', SetItem ''hawk-user-id'' ''r4nd0m''] \<and>
   \<not> isl (fst (constructor example_env (SettingsString ''good'')
      (example_world\<lparr>localStorage := [''hawk-user-id'' \<mapsto> []]\<rparr>))) \<and>
   user_id (this_user (projr (fst (constructor example_env (SettingsString ''good'')
      (example_world\<lparr>localStorage := [''hawk-user-id'' \<mapsto> []]\<rparr>))))) = ''r4nd0m''"
  by (simp add: catcher_defs example_defs)

subsection \<open>The token and the endpoint\<close>

lemma getIntegrationId_result:
  "getIntegrationId e this = Inr i \<Longrightarrow> truthy i \<and> i \<noteq> JStr []"
  by (auto simp: getIntegrationId_def split: sum.splits if_splits)

lemma getIntegrationId_valid:
  assumes "decodeToken e (this_token this) = Inr (JObj kvs)"
      and "map_of kvs ''integrationId'' = Some (JStr i)" and "i \<noteq> []"
    shows "getIntegrationId e this = Inr (JStr i)"
  using assms by (simp add: getIntegrationId_def)

lemma constructor_missing_token:
  assumes "\<not> truthy_string (settings_token (settings_of a))"
  shows "\<exists>this. fst (constructor e a w) = Inr this \<and> this_transport this = None"
    and "logs (snd (constructor e a w)) = logs w @
           [(''Integration Token is missed. You can get it on https://hawk.so at Project Settings.'',
             ''warn'', None)]"
    and "listeners (snd (constructor e a w)) = listeners w"
  using assms
  by (auto simp: constructor_def Let_def log_def getGeneratedUser_def split: prod.splits option.splits)

lemma constructor_invalid_id:
  assumes "truthy_string (settings_token (settings_of a))"
      and "\<not> truthy_string (settings_collectorEndpoint (settings_of a))"
      and "decodeToken e (settings_token (settings_of a)) = Inr (JObj kvs)"
      and "map_of kvs ''integrationId'' = None \<or> map_of kvs ''integrationId'' = Some (JStr [])"
    shows "fst (constructor e a w) =
             Inl (Exn ''Error'' ''Invalid integration token. There is no integration ID.'')"
  using assms
  by (auto simp: constructor_def Let_def getIntegrationId_def split: prod.splits)

lemma constructor_endpoint:
  assumes "fst (constructor e a w) = Inr this" and "this_transport this = Some sock"
  shows "(truthy_string (settings_collectorEndpoint (settings_of a)) \<and>
          collectorEndpoint (options sock) = the (settings_collectorEndpoint (settings_of a))) \<or>
         (\<exists>i. truthy i \<and> i \<noteq> JStr [] \<and>
              collectorEndpoint (options sock) = ''wss://'' @ template e i @ ''.k1.hawk.so:443/ws'')"
  using assms
  by (auto simp: constructor_def Let_def split: prod.splits if_splits sum.splits)
     (blast dest: getIntegrationId_result)+

text \<open>
  Claim C3, amended. A token that is not empty and decodes to an object whose
  \<^verbatim>\<open>integrationId\<close> is missing or empty makes the constructor throw, when the settings give
  no collector endpoint. A transport that the constructor builds has a non-empty endpoint:
  the endpoint of the settings, or the address built from a non-empty integration id. The
  branch of the missing token does not fail fast: it logs a warning and returns an instance
  without a transport.
\<close>

theorem invalid_token_fatal:
  "(truthy_string (settings_token (settings_of a)) \<and>
    \<not> truthy_string (settings_collectorEndpoint (settings_of a)) \<and>
    decodeToken e (settings_token (settings_of a)) = Inr (JObj kvs) \<and>
    (map_of kvs ''integrationId'' = None \<or> map_of kvs ''integrationId'' = Some (JStr [])) \<longrightarrow>
      fst (constructor e a w) =
        Inl (Exn ''Error'' ''Invalid integration token. There is no integration ID.'')) \<and>
   (fst (constructor e b w) = Inr this \<and> this_transport this = Some sock \<longrightarrow>
      collectorEndpoint (options sock) \<noteq> [] \<and>
      ((truthy_string (settings_collectorEndpoint (settings_of b)) \<and>
        collectorEndpoint (options sock) = the (settings_collectorEndpoint (settings_of b))) \<or>
       (\<exists>i. truthy i \<and> i \<noteq> JStr [] \<and>
            collectorEndpoint (options sock) = ''wss://'' @ template e i @ ''.k1.hawk.so:443/ws''))) \<and>
   (\<not> truthy_string (settings_token (settings_of c)) \<longrightarrow>
      (\<exists>this. fst (constructor e c w) = Inr this \<and> this_transport this = None) \<and>
      logs (snd (constructor e c w)) = logs w @
        [(''Integration Token is missed. You can get it on https://hawk.so at Project Settings.'',
          ''warn'', None)])"
proof (intro conjI impI)
  assume "truthy_string (settings_token (settings_of a)) \<and>
    \<not> truthy_string (settings_collectorEndpoint (settings_of a)) \<and>
    decodeToken e (settings_token (settings_of a)) = Inr (JObj kvs) \<and>
    (map_of kvs ''integrationId'' = None \<or> map_of kvs ''integrationId'' = Some (JStr []))"
  then show "fst (constructor e a w) =
        Inl (Exn ''Error'' ''Invalid integration token. There is no integration ID.'')"
    using constructor_invalid_id [of a e kvs w] by blast
next
  assume h: "fst (constructor e b w) = Inr this \<and> this_transport this = Some sock"
  then have d: "(truthy_string (settings_collectorEndpoint (settings_of b)) \<and>
        collectorEndpoint (options sock) = the (settings_collectorEndpoint (settings_of b))) \<or>
       (\<exists>i. truthy i \<and> i \<noteq> JStr [] \<and>
            collectorEndpoint (options sock) = ''wss://'' @ template e i @ ''.k1.hawk.so:443/ws'')"
    using constructor_endpoint [of e b w this sock] by blast
  then show "collectorEndpoint (options sock) \<noteq> []"
    by (cases "settings_collectorEndpoint (settings_of b)") auto
  from d show "(truthy_string (settings_collectorEndpoint (settings_of b)) \<and>
        collectorEndpoint (options sock) = the (settings_collectorEndpoint (settings_of b))) \<or>
       (\<exists>i. truthy i \<and> i \<noteq> JStr [] \<and>
            collectorEndpoint (options sock) = ''wss://'' @ template e i @ ''.k1.hawk.so:443/ws'')" .
next
  assume "\<not> truthy_string (settings_token (settings_of c))"
  then show "\<exists>this. fst (constructor e c w) = Inr this \<and> this_transport this = None"
    by (rule constructor_missing_token(1))
next
  assume "\<not> truthy_string (settings_token (settings_of c))"
  then show "logs (snd (constructor e c w)) = logs w @
        [(''Integration Token is missed. You can get it on https://hawk.so at Project Settings.'',
          ''warn'', None)]"
    by (rule constructor_missing_token(2))
qed

theorem invalid_token_fatal_witness:
  "fst (constructor example_env (SettingsString ''noid'') example_world) =
     Inl (Exn ''Error'' ''Invalid integration token. There is no integration ID.'') \<and>
   collectorEndpoint (options (the (this_transport example_catcher))) \<noteq> [] \<and>
   logs (snd (constructor example_env (SettingsString []) example_world)) =
     [(''Integration Token is missed. You can get it on https://hawk.so at Project Settings.'',
       ''warn'', None)]"
proof -
  have a: "truthy_string (settings_token (settings_of (SettingsString ''noid''))) \<and>
    \<not> truthy_string (settings_collectorEndpoint (settings_of (SettingsString ''noid''))) \<and>
    decodeToken example_env (settings_token (settings_of (SettingsString ''noid''))) =
      Inr (JObj [(''secret'', JStr ''s'')]) \<and>
    (map_of [(''secret'', JStr ''s'')] ''integrationId'' = None \<or>
     map_of [(''secret'', JStr ''s'')] ''integrationId'' = Some (JStr []))"
    by (simp add: settings_of_def decodeToken_def example_env_def)
  have b: "fst (constructor example_env (SettingsObject example_settings) example_world) =
             Inr example_catcher \<and>
           this_transport example_catcher = Some (the (this_transport example_catcher))"
    by (simp add: example_constructed) (simp add: example_catcher_def)
  have c: "\<not> truthy_string (settings_token (settings_of (SettingsString [])))"
    by (simp add: settings_of_def)
  from invalid_token_fatal [where a = "SettingsString ''noid''" and e = example_env
      and kvs = "[(''secret'', JStr ''s'')]" and w = example_world
      and b = "SettingsObject example_settings" and this = example_catcher
      and sock = "the (this_transport example_catcher)" and c = "SettingsString []"] a b c
  show ?thesis
    by (simp add: example_world_def)
qed

text \<open>
  The claim as it is written puts the branch of the missing token under the requirement to
  fail fast. With an empty token the constructor does not throw: it returns an instance that
  has no transport, after one warning.
\<close>

theorem invalid_token_fatal_counterexample:
  "\<not> isl (fst (constructor example_env (SettingsString []) example_world)) \<and>
   this_transport (projr (fst (constructor example_env (SettingsString []) example_world))) = None \<and>
   logs (snd (constructor example_env (SettingsString []) example_world)) =
     [(''Integration Token is missed. You can get it on https://hawk.so at Project Settings.'',
       ''warn'', None)]"
  by (simp add: catcher_defs example_defs)

text \<open>
  Claim C5, amended. For a non-empty token that decodes to an object with a non-empty string
  \<^verbatim>\<open>integrationId\<close>, the constructor returns an instance whose transport was built with
  these options: the endpoint is the collector endpoint of the settings when that is given
  and not empty, and otherwise \<^verbatim>\<open>wss://\<close>, the integration id and
  \<^verbatim>\<open>.k1.hawk.so:443/ws\<close>; the reconnection attempts and the reconnection timeout are
  those of the settings; the \<^verbatim>\<open>onClose\<close> callback is the constructor's own, which logs
  that the connection was lost. No sequence of \<^verbatim>\<open>send\<close> calls changes these options.
\<close>

theorem transport_options:
  assumes "truthy_string (settings_token (settings_of a))"
      and "decodeToken e (settings_token (settings_of a)) = Inr (JObj kvs)"
      and "map_of kvs ''integrationId'' = Some (JStr i)"
      and "i \<noteq> []"
    shows "\<exists>this. fst (constructor e a w) = Inr this \<and>
             map_option options (this_transport this) =
               Some \<lparr>collectorEndpoint =
                       (if truthy_string (settings_collectorEndpoint (settings_of a))
                        then the (settings_collectorEndpoint (settings_of a))
                        else ''wss://'' @ i @ ''.k1.hawk.so:443/ws''),
                     reconnectionAttempts = settings_reconnectionAttempts (settings_of a),
                     reconnectionTimeout = settings_reconnectionTimeout (settings_of a),
                     onClose = connection_lost\<rparr> \<and>
             (\<forall>ms w1. map_option options (this_transport (fst (sends this ms w1))) =
                       map_option options (this_transport this))"
proof -
  obtain u w0 where u: "(case settings_user (settings_of a) of
                           Some u \<Rightarrow> (u, w) | None \<Rightarrow> getGeneratedUser e w) = (u, w0)"
    by (cases "case settings_user (settings_of a) of
                 Some u \<Rightarrow> (u, w) | None \<Rightarrow> getGeneratedUser e w")
  let ?this0 = "\<lparr>this_version = VERSION e, this_type = ''errors/javascript'',
                  this_token = settings_token (settings_of a),
                  this_debug = (settings_debug (settings_of a) = Some True),
                  this_release = settings_release (settings_of a),
                  this_user = u,
                  this_context = settings_context (settings_of a),
                  this_beforeSend = settings_beforeSend (settings_of a),
                  this_transport = None\<rparr>"
  have g: "getIntegrationId e ?this0 = Inr (JStr i)"
    using assms(2-4) by (intro getIntegrationId_valid [where kvs = kvs]) simp_all
  have "\<exists>this. fst (constructor e a w) = Inr this \<and>
             map_option options (this_transport this) =
               Some \<lparr>collectorEndpoint =
                       (if truthy_string (settings_collectorEndpoint (settings_of a))
                        then the (settings_collectorEndpoint (settings_of a))
                        else ''wss://'' @ i @ ''.k1.hawk.so:443/ws''),
                     reconnectionAttempts = settings_reconnectionAttempts (settings_of a),
                     reconnectionTimeout = settings_reconnectionTimeout (settings_of a),
                     onClose = connection_lost\<rparr>"
    using assms(1) u g
    by (simp add: constructor_def Let_def template_def split: option.splits)
  moreover have "map_option options (this_transport (fst (sends this ms w1))) =
                 map_option options (this_transport this)" for this ms w1
    using sends_fields [of this ms w1 "fst (sends this ms w1)" "snd (sends this ms w1)"]
    by (simp add: configuration_kept_def)
  ultimately show ?thesis
    by blast
qed

theorem transport_options_witness:
  "map_option options (this_transport (projr (fst (constructor example_env
      (SettingsObject example_settings) example_world)))) =
     Some \<lparr>collectorEndpoint = ''wss://abc.k1.hawk.so:443/ws'',
           reconnectionAttempts = Some 3, reconnectionTimeout = Some 1000,
           onClose = connection_lost\<rparr>"
proof -
  have "truthy_string (settings_token (settings_of (SettingsObject example_settings)))"
    by (simp add: settings_of_def example_settings_def)
  moreover have "decodeToken example_env
      (settings_token (settings_of (SettingsObject example_settings))) =
        Inr (JObj [(''integrationId'', JStr ''abc''), (''secret'', JStr ''s'')])"
    by (simp add: settings_of_def example_settings_def decodeToken_def example_env_def)
  moreover have "map_of [(''integrationId'', JStr ''abc''), (''secret'', JStr ''s'')]
      ''integrationId'' = Some (JStr ''abc'')"
    by simp
  moreover have "''abc'' \<noteq> []"
    by simp
  ultimately obtain this where
    "fst (constructor example_env (SettingsObject example_settings) example_world) = Inr this"
    "map_option options (this_transport this) =
       Some \<lparr>collectorEndpoint =
               (if truthy_string (settings_collectorEndpoint
                     (settings_of (SettingsObject example_settings)))
                then the (settings_collectorEndpoint (settings_of (SettingsObject example_settings)))
                else ''wss://'' @ ''abc'' @ ''.k1.hawk.so:443/ws''),
             reconnectionAttempts =
               settings_reconnectionAttempts (settings_of (SettingsObject example_settings)),
             reconnectionTimeout =
               settings_reconnectionTimeout (settings_of (SettingsObject example_settings)),
             onClose = connection_lost\<rparr>"
    using transport_options [where a = "SettingsObject example_settings" and e = example_env
        and w = example_world] by blast
  then show ?thesis
    by (simp add: settings_of_def example_settings_def)
qed

text \<open>
  The claim as it is written takes the \<^verbatim>\<open>onClose\<close> callback from the settings. The
  constructor does not: with the callback \<open>user_onClose\<close> on the settings object, the
  transport still gets the constructor's own callback, and the two log different entries.
\<close>

theorem transport_options_counterexample:
  "settings_onClose (example_settings\<lparr>settings_onClose := Some user_onClose\<rparr>) =
     Some user_onClose \<and>
   logs (user_onClose example_world) = [(''closed'', ''debug'', None)] \<and>
   \<not> isl (fst (constructor example_env
       (SettingsObject (example_settings\<lparr>settings_onClose := Some user_onClose\<rparr>))
       example_world)) \<and>
   logs (onClose (options (the (this_transport (projr (fst (constructor example_env
       (SettingsObject (example_settings\<lparr>settings_onClose := Some user_onClose\<rparr>))
       example_world)))))) example_world) =
     [(''Connection lost. Connection will be restored when new errors occurred'', ''info'', None)]"
  by (simp add: catcher_defs example_defs user_onClose_def connection_lost_def)

subsection \<open>Sending never throws\<close>












subsection \<open>Failures of formatting\<close>














section \<open>Properties of the transport core\<close>

subsection \<open>The bound on reconnection\<close>

lemma step_maxAttempts: "maxAttempts (retry (step ev c)) = maxAttempts (retry c)"
  by (cases ev) (simp_all add: open_connection_def reconnect_needed_def)

lemma run_maxAttempts: "maxAttempts (retry (run evs c)) = maxAttempts (retry c)"
  by (induction evs arbitrary: c) (simp_all add: step_maxAttempts)

lemma step_retry_ok: "retry_ok c \<Longrightarrow> retry_ok (step ev c)"
  by (cases ev)
     (auto simp: retry_ok_def open_connection_def reconnect_needed_def split: option.splits)

lemma run_retry_ok: "retry_ok c \<Longrightarrow> retry_ok (run evs c)"
  by (induction evs arbitrary: c) (simp_all add: step_retry_ok)

lemma new_controller_retry_ok: "retry_ok (new_controller m d)"
  by (simp add: retry_ok_def new_controller_def split: option.splits)

lemma run_append: "run (xs @ ys) c = run ys (run xs c)"
  by (induction xs arbitrary: c) simp_all

lemma failed_attempts_Suc: "failed_attempts (Suc k) = failed_attempts k @ [Delay, OnClose]"
proof -
  have "replicate (Suc k) [Delay, OnClose] = replicate k [Delay, OnClose] @ [[Delay, OnClose]]"
    by (simp only: replicate_append_same [symmetric] replicate_Suc)
  then show ?thesis
    by (simp add: failed_attempts_def)
qed

text \<open>
  After the closure of an open connection and \<open>k\<close> failed attempts, for \<open>k\<close> up to the
  maximum.
\<close>

lemma run_failed_attempts:
  assumes "maxAttempts (retry c) = Some n" and "state c = Open" and "attemptsMade (retry c) = 0"
      and "k \<le> n"
    shows "state (run (OnClose # failed_attempts k) c) =
             (if k = n then PermanentlyClosed else Reconnecting) \<and>
           attemptsMade (retry (run (OnClose # failed_attempts k) c)) = k \<and>
           connections (run (OnClose # failed_attempts k) c) = connections c + k \<and>
           maxAttempts (retry (run (OnClose # failed_attempts k) c)) = Some n"
  using assms(4)
proof (induction k)
  case 0
  with assms(1-3) show ?case
    by (auto simp: failed_attempts_def reconnect_needed_def)
next
  case (Suc k)
  let ?c = "run (OnClose # failed_attempts k) c"
  from Suc have k: "k < n"
    by simp
  with Suc.IH have c: "state ?c = Reconnecting" "attemptsMade (retry ?c) = k"
    "connections ?c = connections c + k" "maxAttempts (retry ?c) = Some n"
    by simp_all
  have "run (OnClose # failed_attempts (Suc k)) c = run [Delay, OnClose] ?c"
    by (simp only: failed_attempts_Suc append_Cons [symmetric] run_append)
  with c k show ?case
    by (auto simp: open_connection_def reconnect_needed_def)
qed

lemma step_terminal:
  "state c = PermanentlyClosed \<Longrightarrow> ev \<noteq> Connect \<Longrightarrow>
     state (step ev c) = PermanentlyClosed \<and> connections (step ev c) = connections c"
  by (cases ev) simp_all

lemma run_terminal:
  "state c = PermanentlyClosed \<Longrightarrow> Connect \<notin> set evs \<Longrightarrow>
     state (run evs c) = PermanentlyClosed \<and> connections (run evs c) = connections c"
proof (induction evs arbitrary: c)
  case Nil
  then show ?case by simp
next
  case (Cons ev evs)
  from Cons.prems have "state (step ev c) = PermanentlyClosed"
    and "connections (step ev c) = connections c" and "Connect \<notin> set evs"
    using step_terminal [of c ev] by auto
  with Cons.IH [of "step ev c"] show ?case
    by simp
qed

text \<open>
  Claim C4. Take a controller with a finite \<open>maxAttempts\<close> \<open>n\<close>, in any state \<open>c\<close> that
  it reaches from its construction. The attempts made in \<open>c\<close> do not exceed \<open>n\<close>. If the
  connection is open in \<open>c\<close> and then closes unexpectedly, then after \<open>k\<close> consecutive
  failed reconnection attempts, \<open>k\<close> up to \<open>n\<close>, the controller has made \<open>k\<close> attempts
  and opened \<open>k\<close> connections, and it is permanently closed exactly when \<open>k\<close> is \<open>n\<close>.
  Once permanently closed, it stays so and opens no further connection, whatever happens
  short of an explicit \<^verbatim>\<open>connect()\<close>.
\<close>

theorem reconnection_bound:
  assumes "c = run evs0 (new_controller (Some n) d)"
  shows "attemptsMade (retry c) \<le> n \<and>
         (state c = Open \<and> k \<le> n \<longrightarrow>
            state (run (OnClose # failed_attempts k) c) =
              (if k = n then PermanentlyClosed else Reconnecting) \<and>
            attemptsMade (retry (run (OnClose # failed_attempts k) c)) = k \<and>
            connections (run (OnClose # failed_attempts k) c) = connections c + k) \<and>
         (state c = PermanentlyClosed \<and> Connect \<notin> set evs \<longrightarrow>
            state (run evs c) = PermanentlyClosed \<and> connections (run evs c) = connections c)"
proof -
  have m: "maxAttempts (retry c) = Some n"
    using assms by (simp add: run_maxAttempts new_controller_def)
  have ok: "retry_ok c"
    using assms by (simp add: run_retry_ok new_controller_retry_ok)
  from m ok have 1: "attemptsMade (retry c) \<le> n"
    by (simp add: retry_ok_def)
  have 2: "state (run (OnClose # failed_attempts k) c) =
              (if k = n then PermanentlyClosed else Reconnecting) \<and>
            attemptsMade (retry (run (OnClose # failed_attempts k) c)) = k \<and>
            connections (run (OnClose # failed_attempts k) c) = connections c + k"
    if "state c = Open \<and> k \<le> n"
  proof -
    from that m ok have "attemptsMade (retry c) = 0"
      by (simp add: retry_ok_def)
    with run_failed_attempts [OF m, of k] that show ?thesis
      by simp
  qed
  have 3: "state (run evs c) = PermanentlyClosed \<and> connections (run evs c) = connections c"
    if "state c = PermanentlyClosed \<and> Connect \<notin> set evs"
    using that run_terminal [of c evs] by simp
  from 1 2 3 show ?thesis
    by blast
qed

theorem reconnection_bound_witness:
  "attemptsMade (retry (run [Connect, OnOpen] (new_controller (Some 3) 1000))) \<le> 3 \<and>
   state (run (OnClose # failed_attempts 3)
     (run [Connect, OnOpen] (new_controller (Some 3) 1000))) = PermanentlyClosed \<and>
   attemptsMade (retry (run (OnClose # failed_attempts 3)
     (run [Connect, OnOpen] (new_controller (Some 3) 1000)))) = 3 \<and>
   connections (run (OnClose # failed_attempts 3)
     (run [Connect, OnOpen] (new_controller (Some 3) 1000))) = 4 \<and>
   state (run [Delay, OnClose, OnOpen, Delay] (run ([Connect, OnOpen, OnClose] @ failed_attempts 3)
     (new_controller (Some 3) 1000))) = PermanentlyClosed \<and>
   connections (run [Delay, OnClose, OnOpen, Delay]
     (run ([Connect, OnOpen, OnClose] @ failed_attempts 3) (new_controller (Some 3) 1000))) = 4"
proof -
  let ?c = "run [Connect, OnOpen] (new_controller (Some 3) 1000)"
  let ?p = "run ([Connect, OnOpen, OnClose] @ failed_attempts 3) (new_controller (Some 3) 1000)"
  have o: "state ?c = Open \<and> (3::nat) \<le> 3" and oc: "connections ?c = 1"
    by (simp_all add: new_controller_def open_connection_def)
  have p: "state ?p = PermanentlyClosed \<and> Connect \<notin> set [Delay, OnClose, OnOpen, Delay]"
    and pc: "connections ?p = 4"
    by (simp_all add: new_controller_def open_connection_def reconnect_needed_def
          failed_attempts_def numeral_3_eq_3)
  from reconnection_bound [OF refl, of "[Connect, OnOpen]" 3 1000 3] o oc
    reconnection_bound [OF refl, of "[Connect, OnOpen, OnClose] @ failed_attempts 3" 3 1000 _
      "[Delay, OnClose, OnOpen, Delay]"] p pc
  show ?thesis
    by simp
qed

subsection \<open>Delivery in the order of submission\<close>

lemma trim_trim: "trim n (trim n q @ [x]) = trim n (q @ [x])"
proof (cases n)
  case None
  then show ?thesis by (simp add: trim_def)
next
  case (Some k)
  show ?thesis
  proof (cases "length q \<le> k")
    case True
    with Some show ?thesis by (simp add: trim_def)
  next
    case False
    then have "min (length q) k = k" and "Suc (length q) - k = Suc (length q - k)"
      and "Suc k - k = 1"
      by simp_all
    with Some False show ?thesis
      by (cases k) (simp_all add: trim_def drop_Suc tl_drop Suc_diff_le)
  qed
qed

lemma trim_within: "(case n of None \<Rightarrow> True | Some k \<Rightarrow> length q \<le> k) \<Longrightarrow> trim n q = q"
  by (simp add: trim_def split: option.splits)

lemma trim_length: "(case n of None \<Rightarrow> True | Some k \<Rightarrow> length (trim n q) \<le> k)"
  by (auto simp: trim_def split: option.splits)

lemma map_trim: "map g (trim n q) = trim n (map g q)"
  by (simp add: trim_def drop_map split: option.splits)

lemma stamp_payloads: "map message_payload (stamp s ms) = ms"
  by (induction ms arbitrary: s) simp_all

lemma stamp_numbers: "map sequence_number (stamp s ms) = [s ..< s + length ms]"
  by (induction ms arbitrary: s) (simp_all add: upt_rec)

lemma enqueue_queue:
  "queue (enqueue m f) =
     trim (maximum f) (queue f @ [\<lparr>message_payload = m, sequence_number = next_sequence f\<rparr>]) \<and>
   next_sequence (enqueue m f) = Suc (next_sequence f) \<and>
   maximum (enqueue m f) = maximum f \<and> wire (enqueue m f) = wire f \<and>
   controller (enqueue m f) = controller f"
  by (simp add: enqueue_def trim_def Let_def)

text \<open>A \<^verbatim>\<open>send\<close> while the connection is not open enqueues and does not open it.\<close>

lemma facade_send_closed:
  assumes "state (controller f) \<noteq> Open"
  shows "queue (facade_send ok m f) =
           trim (maximum f) (queue f @ [\<lparr>message_payload = m, sequence_number = next_sequence f\<rparr>]) \<and>
         next_sequence (facade_send ok m f) = Suc (next_sequence f) \<and>
         maximum (facade_send ok m f) = maximum f \<and> wire (facade_send ok m f) = wire f \<and>
         state (controller (facade_send ok m f)) \<noteq> Open"
  using assms enqueue_queue [of m f]
  by (simp add: facade_send_def Let_def open_connection_def)

lemma submit_closed:
  assumes "state (controller f) \<noteq> Open" and "queue f = trim (maximum f) q"
  shows "queue (submit ms f) = trim (maximum f) (q @ stamp (next_sequence f) (map snd ms)) \<and>
         next_sequence (submit ms f) = next_sequence f + length ms \<and>
         maximum (submit ms f) = maximum f \<and> wire (submit ms f) = wire f \<and>
         state (controller (submit ms f)) \<noteq> Open"
  using assms
proof (induction ms arbitrary: f q)
  case Nil
  then show ?case by simp
next
  case (Cons a ms)
  obtain ok m where a: "a = (ok, m)"
    by (cases a)
  let ?e = "\<lparr>message_payload = m, sequence_number = next_sequence f\<rparr>"
  let ?g = "facade_send ok m f"
  from facade_send_closed [OF Cons.prems(1), of ok m] Cons.prems(2)
  have g: "state (controller ?g) \<noteq> Open" "queue ?g = trim (maximum ?g) (q @ [?e])"
    "next_sequence ?g = Suc (next_sequence f)" "maximum ?g = maximum f" "wire ?g = wire f"
    by (simp_all add: trim_trim)
  from Cons.IH [OF g(1) g(2)] g(3-5) a show ?case
    by simp
qed

text \<open>
  A drain delivers a prefix of the queue and keeps the rest: as many entries as the channel
  takes before its first failure.
\<close>

lemma drain_prefix:
  "drain oks q w =
     (drop (min (length q) (length (takeWhile id oks))) q,
      w @ map message_payload (take (min (length q) (length (takeWhile id oks))) q))"
  by (induction oks q w rule: drain.induct) simp_all

lemma facade_on_open_connecting:
  assumes "state (controller g) = Connecting"
  shows "state (controller (facade_on_open oks g)) = Open \<and>
         queue (facade_on_open oks g) =
           drop (min (length (queue g)) (length (takeWhile id oks))) (queue g) \<and>
         wire (facade_on_open oks g) =
           wire g @ map message_payload
             (take (min (length (queue g)) (length (takeWhile id oks))) (queue g))"
  using assms by (simp add: facade_on_open_def drain_prefix)

lemma sorted_numbers:
  assumes "sorted_wrt (<) (map sequence_number q)"
      and "list_all (\<lambda>m. sequence_number m < s) q"
    shows "sorted_wrt (<) (trim n (map sequence_number q @ [s ..< s + k]))"
proof -
  from assms(2) have "\<forall>x \<in> set (map sequence_number q). \<forall>y \<in> set [s ..< s + k]. x < y"
    by (auto simp: list_all_iff)
  with assms(1) have s: "sorted_wrt (<) (map sequence_number q @ [s ..< s + k])"
    by (simp add: sorted_wrt_append)
  show ?thesis
  proof (cases n)
    case None
    with s show ?thesis
      by (simp only: trim_def option.case)
  next
    case (Some j)
    from s have "sorted_wrt (<)
        (drop (length (map sequence_number q @ [s ..< s + k]) - j)
           (map sequence_number q @ [s ..< s + k]))"
      by (rule sorted_wrt_drop)
    with Some show ?thesis
      by (simp only: trim_def option.case)
  qed
qed

text \<open>Every facade reached from its construction has a queue in this state.\<close>

lemma new_facade_queue_ok: "queue_ok (new_facade m d n)"
  by (simp add: queue_ok_def new_facade_def split: option.splits)

lemma enqueue_queue_ok:
  assumes "queue_ok f"
  shows "queue_ok (enqueue m f)"
proof -
  let ?e = "\<lparr>message_payload = m, sequence_number = next_sequence f\<rparr>"
  from assms have q: "sorted_wrt (<) (map sequence_number (queue f))"
    "list_all (\<lambda>x. sequence_number x < next_sequence f) (queue f)"
    by (simp_all add: queue_ok_def)
  from sorted_numbers [OF q, of "maximum f" 1]
  have 1: "sorted_wrt (<) (map sequence_number (trim (maximum f) (queue f @ [?e])))"
    by (simp add: map_trim)
  from q(2) have "list_all (\<lambda>x. sequence_number x < Suc (next_sequence f)) (queue f @ [?e])"
    by (auto simp: list_all_iff)
  then have 2: "list_all (\<lambda>x. sequence_number x < Suc (next_sequence f))
                  (trim (maximum f) (queue f @ [?e]))"
    by (cases "maximum f") (auto simp: trim_def list_all_iff dest: in_set_dropD)
  from enqueue_queue [of m f]
  have e: "queue (enqueue m f) = trim (maximum f) (queue f @ [?e])"
    "next_sequence (enqueue m f) = Suc (next_sequence f)" "maximum (enqueue m f) = maximum f"
    by simp_all
  from 1 2 trim_length [of "maximum f" "queue f @ [?e]"] show ?thesis
    unfolding queue_ok_def e by simp
qed

lemma queue_ok_cong:
  "queue g = queue f \<Longrightarrow> next_sequence g = next_sequence f \<Longrightarrow> maximum g = maximum f \<Longrightarrow>
     queue_ok g = queue_ok f"
  by (simp add: queue_ok_def split: option.splits)

lemma facade_send_queue_ok:
  assumes "queue_ok f"
  shows "queue_ok (facade_send ok m f)"
proof (cases "state (controller f) = Open \<and> ok")
  case True
  then have "facade_send ok m f = f\<lparr>wire := wire f @ [m]\<rparr>"
    by (simp add: facade_send_def)
  with assms queue_ok_cong [of "facade_send ok m f" f] show ?thesis
    by simp
next
  case False
  then have "facade_send ok m f = enqueue m f \<or>
             (\<exists>c. facade_send ok m f = (enqueue m f)\<lparr>controller := c\<rparr>)"
    by (auto simp: facade_send_def Let_def simp del: step.simps)
  then have "queue (facade_send ok m f) = queue (enqueue m f)"
    "next_sequence (facade_send ok m f) = next_sequence (enqueue m f)"
    "maximum (facade_send ok m f) = maximum (enqueue m f)"
    by auto
  with enqueue_queue_ok [OF assms, of m]
    queue_ok_cong [of "facade_send ok m f" "enqueue m f"] show ?thesis
    by simp
qed

lemma facade_on_open_fields:
  "next_sequence (facade_on_open oks f) = next_sequence f \<and>
   maximum (facade_on_open oks f) = maximum f \<and>
   (\<exists>j. queue (facade_on_open oks f) = drop j (queue f))"
proof (cases "state (step OnOpen (controller f)) = Open \<and> state (controller f) \<noteq> Open")
  case True
  then have "facade_on_open oks f =
      f\<lparr>controller := step OnOpen (controller f),
        queue := drop (min (length (queue f)) (length (takeWhile id oks))) (queue f),
        wire := wire f @ map message_payload
          (take (min (length (queue f)) (length (takeWhile id oks))) (queue f))\<rparr>"
    by (simp add: facade_on_open_def drain_prefix Let_def del: step.simps)
  then show ?thesis
    by auto
next
  case False
  then have "facade_on_open oks f = f\<lparr>controller := step OnOpen (controller f)\<rparr>"
    by (auto simp: facade_on_open_def Let_def simp del: step.simps)
  then have "next_sequence (facade_on_open oks f) = next_sequence f"
    "maximum (facade_on_open oks f) = maximum f"
    "queue (facade_on_open oks f) = drop 0 (queue f)"
    by simp_all
  then show ?thesis
    by blast
qed

lemma facade_on_open_queue_ok:
  assumes "queue_ok f"
  shows "queue_ok (facade_on_open oks f)"
proof -
  from facade_on_open_fields [of oks f]
  obtain j where q: "queue (facade_on_open oks f) = drop j (queue f)"
    and n: "next_sequence (facade_on_open oks f) = next_sequence f"
    and m: "maximum (facade_on_open oks f) = maximum f"
    by blast
  from assms have "sorted_wrt (<) (map sequence_number (drop j (queue f)))"
    by (simp add: queue_ok_def drop_map [symmetric] sorted_wrt_drop)
  moreover from assms
  have "list_all (\<lambda>x. sequence_number x < next_sequence f) (drop j (queue f))"
    by (auto simp: queue_ok_def list_all_iff dest: in_set_dropD)
  moreover from assms
  have "case maximum f of None \<Rightarrow> True | Some n \<Rightarrow> length (drop j (queue f)) \<le> n"
    by (auto simp: queue_ok_def split: option.splits)
  ultimately show ?thesis
    unfolding queue_ok_def q n m by simp
qed

text \<open>
  Claim C1. Take a facade whose connection is not open and messages submitted to it by
  \<^verbatim>\<open>send\<close>. They are queued behind the entries already there, in the order of submission
  and with ascending sequence numbers; with a configured maximum only the newest stay. When
  the connection then opens, whatever the controller did meanwhile, the drain delivers to the
  wire a prefix of that queue, in its order, and leaves the rest queued in its order: as many
  entries as the channel takes before its first failure. Nothing is reordered, duplicated or
  dropped by the drain, and when the channel takes every entry the wire receives the whole
  queue and the queue is empty.
\<close>

theorem fifo_delivery:
  fixes f :: "'p Facade" and ms :: "(bool \<times> 'p) list" and c :: Controller and oks :: "bool list"
  assumes "state (controller f) \<noteq> Open" and "queue_ok f" and "state c = Connecting"
  defines "g \<equiv> (submit ms f)\<lparr>controller := c\<rparr>"
  defines "k \<equiv> min (length (queue g)) (length (takeWhile id oks))"
  shows "map message_payload (queue g) =
           trim (maximum f) (map message_payload (queue f) @ map snd ms) \<and>
         map sequence_number (queue g) =
           trim (maximum f)
             (map sequence_number (queue f) @ [next_sequence f ..< next_sequence f + length ms]) \<and>
         sorted_wrt (<) (map sequence_number (queue g)) \<and>
         state (controller (facade_on_open oks g)) = Open \<and>
         wire (facade_on_open oks g) = wire f @ map message_payload (take k (queue g)) \<and>
         queue (facade_on_open oks g) = drop k (queue g) \<and>
         wire (facade_on_open oks g) @ map message_payload (queue (facade_on_open oks g)) =
           wire f @ map message_payload (queue g) \<and>
         (length (queue g) \<le> length (takeWhile id oks) \<longrightarrow>
            wire (facade_on_open oks g) = wire f @ map message_payload (queue g) \<and>
            queue (facade_on_open oks g) = [])"
proof -
  from assms(2) have q: "queue f = trim (maximum f) (queue f)"
    by (simp add: queue_ok_def trim_within)
  from submit_closed [OF assms(1) q, of ms]
  have s: "queue g = trim (maximum f) (queue f @ stamp (next_sequence f) (map snd ms))"
    "wire g = wire f"
    by (simp_all add: g_def)
  from s(1) have 1: "map message_payload (queue g) =
           trim (maximum f) (map message_payload (queue f) @ map snd ms)"
    by (simp add: map_trim stamp_payloads)
  from s(1) have 2: "map sequence_number (queue g) =
           trim (maximum f)
             (map sequence_number (queue f) @ [next_sequence f ..< next_sequence f + length ms])"
    by (simp add: map_trim stamp_numbers)
  from assms(2) have 3: "sorted_wrt (<) (map sequence_number (queue g))"
    unfolding 2 by (intro sorted_numbers) (simp_all add: queue_ok_def)
  have "state (controller g) = Connecting"
    using assms(3) by (simp add: g_def)
  from facade_on_open_connecting [OF this, of oks] s(2)
  have 4: "state (controller (facade_on_open oks g)) = Open"
    and 5: "wire (facade_on_open oks g) = wire f @ map message_payload (take k (queue g))"
    and 6: "queue (facade_on_open oks g) = drop k (queue g)"
    by (simp_all add: k_def)
  have 7: "wire (facade_on_open oks g) @ map message_payload (queue (facade_on_open oks g)) =
           wire f @ map message_payload (queue g)"
    unfolding 5 6 by (simp add: take_map [symmetric] drop_map [symmetric])
  have 8: "wire (facade_on_open oks g) = wire f @ map message_payload (queue g) \<and>
            queue (facade_on_open oks g) = []"
    if "length (queue g) \<le> length (takeWhile id oks)"
    using that unfolding 5 6 by (simp add: k_def)
  from 1 2 3 4 5 6 7 8 show ?thesis
    by blast
qed

theorem fifo_delivery_witness:
  "wire (facade_on_open [True, True, False]
     ((submit [(True, ''A''), (True, ''B''), (True, ''C'')] (new_facade (Some 3) 1000 None))
        \<lparr>controller := step Connect (new_controller (Some 3) 1000)\<rparr>)) = [''A'', ''B''] \<and>
   queue (facade_on_open [True, True, False]
     ((submit [(True, ''A''), (True, ''B''), (True, ''C'')] (new_facade (Some 3) 1000 None))
        \<lparr>controller := step Connect (new_controller (Some 3) 1000)\<rparr>)) =
     [\<lparr>message_payload = ''C'', sequence_number = 2\<rparr>] \<and>
   wire (facade_on_open [True, True, True]
     ((submit [(True, ''A''), (True, ''B''), (True, ''C'')] (new_facade (Some 3) 1000 None))
        \<lparr>controller := step Connect (new_controller (Some 3) 1000)\<rparr>)) = [''A'', ''B'', ''C'']"
proof -
  let ?f = "new_facade (Some 3) 1000 None :: string Facade"
  let ?ms = "[(True, ''A''), (True, ''B''), (True, ''C'')]"
  let ?c = "step Connect (new_controller (Some 3) 1000)"
  let ?g = "(submit ?ms ?f)\<lparr>controller := ?c\<rparr>"
  have a: "state (controller ?f) \<noteq> Open"
    by (simp add: new_facade_def new_controller_def)
  have b: "queue_ok ?f"
    by (simp add: queue_ok_def new_facade_def)
  have c: "state ?c = Connecting"
    by (simp add: new_controller_def open_connection_def)
  have q: "queue ?g = [\<lparr>message_payload = ''A'', sequence_number = 0\<rparr>,
                       \<lparr>message_payload = ''B'', sequence_number = 1\<rparr>,
                       \<lparr>message_payload = ''C'', sequence_number = 2\<rparr>]"
    by (simp add: facade_send_def enqueue_def new_facade_def new_controller_def
          open_connection_def Let_def)
  have w: "wire ?f = []"
    by (simp add: new_facade_def)
  from fifo_delivery [OF a b c, of ?ms "[True, True, False]"]
    fifo_delivery [OF a b c, of ?ms "[True, True, True]"] q w
  show ?thesis
    by simp
qed

end
